theory Spec2Isabelle
  imports Main "HOL-Library.AList"
begin

text \<open>
  The payment service \<open>X402PayService\<close> (challenge, verification, settlement, expiry
  sweep) and the operation helpers of \<open>SmartWalletService\<close>, as HOL functions: the
  service is a record that each call takes and returns, what a call reads from outside
  (the facilitator's answers, the wallet provider, the clock, the random id) is an
  argument, a throw is the left summand of a sum, and what a call sends and logs is a
  list of effects.
\<close>

section \<open>JavaScript values shared by the services\<close>

text \<open>
  A thrown JavaScript error: its class name and its message. \<open>new Error(m)\<close> is
  \<open>JsError ''Error'' m\<close>.
\<close>

datatype JsError = JsError (err_name: string) (err_message: string)

text \<open>
  What a call does besides returning: requests sent with \<open>fetch\<close> (URL and the fields of
  the JSON body), writes to the \<open>pendingPayments\<close> map and console output (the tag of the
  record logged).
\<close>

datatype Effect =
    HttpPost string "(string \<times> string) list"
  | MapSet string
  | MapDelete string
  | ConsoleLog string
  | ConsoleError string

text \<open>
  A JavaScript \<open>Map\<close> with string keys: the entries in insertion order. \<open>set\<close> on a key
  that is present replaces the value in place, on a new key appends the entry.
\<close>

type_synonym 'v js_map = "(string \<times> 'v) list"

definition Map_get :: "'v js_map \<Rightarrow> string \<Rightarrow> 'v option" where
  "Map_get m k = map_of m k"

definition Map_has :: "'v js_map \<Rightarrow> string \<Rightarrow> bool" where
  "Map_has m k = (case Map_get m k of None \<Rightarrow> False | Some v \<Rightarrow> True)"

definition Map_set :: "'v js_map \<Rightarrow> string \<Rightarrow> 'v \<Rightarrow> 'v js_map" where
  "Map_set m k v = AList.update k v m"

definition Map_delete :: "'v js_map \<Rightarrow> string \<Rightarrow> 'v js_map" where
  "Map_delete m k = AList.delete k m"

text \<open>The keys of a \<open>Map\<close> are pairwise different.\<close>

definition Map_ok :: "'v js_map \<Rightarrow> bool" where
  "Map_ok m = distinct (map fst m)"

section \<open>The x402 payment service (X402PayService)\<close>

text \<open>
  The stored challenge. Its optional \<open>signature\<close> field is never set and is left out.
\<close>

record X402PaymentResponse =
  paymentId :: string
  amount :: string
  currency :: string
  recipient :: string
  deadline :: int
  nonce :: string

record X402PaymentVerification =
  v_paymentId :: string
  v_transactionHash :: string
  verified :: bool
  v_amount :: string
  timestamp :: int

text \<open>The facilitator's answer to \<open>/verify\<close>; every field may be absent.\<close>

record X402VerificationResult =
  r_verified :: "bool option"
  r_amount :: "string option"
  r_reason :: "string option"

datatype Scenario =
    AI_PROJECT_CREATION
  | APPLICATION_SIGNAL_FEE
  | MILESTONE_APPROVAL_FEE
  | DISPUTE_BOND

record ScenarioConfig =
  c_amount :: string
  c_currency :: string
  c_description :: string

fun X402_PAYMENT_SCENARIOS :: "Scenario \<Rightarrow> ScenarioConfig" where
  "X402_PAYMENT_SCENARIOS AI_PROJECT_CREATION =
     \<lparr>c_amount = ''1000000'', c_currency = ''USDC'',
      c_description = ''AI-Assisted Project Creation''\<rparr>"
| "X402_PAYMENT_SCENARIOS APPLICATION_SIGNAL_FEE =
     \<lparr>c_amount = ''500000'', c_currency = ''USDC'',
      c_description = ''Project Application Signal Fee''\<rparr>"
| "X402_PAYMENT_SCENARIOS MILESTONE_APPROVAL_FEE =
     \<lparr>c_amount = ''2000000'', c_currency = ''USDC'',
      c_description = ''Milestone Approval Service Fee''\<rparr>"
| "X402_PAYMENT_SCENARIOS DISPUTE_BOND =
     \<lparr>c_amount = ''10000000'', c_currency = ''USDC'',
      c_description = ''Dispute Resolution Bond''\<rparr>"

record X402PayService =
  facilitatorUrl :: string
  recipientAddress :: string
  pendingPayments :: "X402PaymentResponse js_map"

subsection \<open>What the service reads from outside\<close>

text \<open>
  The body of an HTTP response as \<open>response.json()\<close> sees it: not JSON at all (the call
  rejects), the JSON value \<open>null\<close> (reading a property of it throws), or an object.
\<close>

datatype JsonBody = JsonInvalid | JsonNull | JsonObject X402VerificationResult

record HttpResponse =
  ok :: bool
  status :: nat
  statusText :: string
  json :: JsonBody

text \<open>\<open>fetch\<close> either rejects (a transport failure) or resolves to a response.\<close>

datatype FetchOutcome = FetchRejected JsError | FetchResolved HttpResponse

text \<open>
  The surroundings of one \<open>generatePaymentRequest\<close> call: the value \<open>uuidv4()\<close> returns,
  the hex string of \<open>randomBytes(32)\<close> and the reading of \<open>Date.now()\<close> in milliseconds.
\<close>

record IssueEnv =
  uuidv4 :: string
  randomBytesHex :: string
  issueNow :: int

text \<open>
  The surroundings of one \<open>verifyPayment\<close> call: how the facilitator answers a request
  (by URL and body) and the reading of \<open>Date.now()\<close> when the result is built.
\<close>

record VerifyEnv =
  fetch :: "string \<Rightarrow> (string \<times> string) list \<Rightarrow> FetchOutcome"
  dateNow :: int

subsection \<open>generatePaymentRequest and create402Response\<close>

text \<open>
  Both methods take an optional \<open>metadata\<close> argument that the code never reads
  (\<open>_metadata\<close>); it is left out. The functions return the value, the service after the
  call and the effects in their order.
\<close>

definition generatePaymentRequest ::
  "IssueEnv \<Rightarrow> X402PayService \<Rightarrow> Scenario
     \<Rightarrow> X402PaymentResponse \<times> X402PayService \<times> Effect list" where
  "generatePaymentRequest env svc scenario =
     (let config = X402_PAYMENT_SCENARIOS scenario;
          pid = uuidv4 env;
          paymentRequest =
            \<lparr>paymentId = pid,
             amount = c_amount config,
             currency = c_currency config,
             recipient = recipientAddress svc,
             deadline = issueNow env div 1000 + 3600,
             nonce = randomBytesHex env\<rparr>
      in (paymentRequest,
          svc\<lparr>pendingPayments := Map_set (pendingPayments svc) pid paymentRequest\<rparr>,
          [MapSet pid, ConsoleLog ''[X402 PAYMENT GENERATED]'']))"

record Payment402 =
  p_id :: string
  p_amount :: string
  p_currency :: string
  p_recipient :: string
  p_deadline :: int
  p_description :: string
  p_facilitator :: string

record Body402 =
  b_error :: string
  b_code :: nat
  b_message :: string
  b_payment :: Payment402

record Response402 =
  res_status :: nat
  res_headers :: "(string \<times> string) list"
  res_body :: Body402

definition create402Response ::
  "IssueEnv \<Rightarrow> X402PayService \<Rightarrow> Scenario
     \<Rightarrow> Response402 \<times> X402PayService \<times> Effect list" where
  "create402Response env svc scenario =
     (case generatePaymentRequest env svc scenario of
        (paymentRequest, svc', fx) \<Rightarrow>
          (let config = X402_PAYMENT_SCENARIOS scenario
           in (\<lparr>res_status = 402,
                res_headers =
                  [(''Content-Type'', ''application/json''),
                   (''X-Payment-Required'', ''x402''),
                   (''X-Payment-Amount'', amount paymentRequest),
                   (''X-Payment-Currency'', currency paymentRequest),
                   (''X-Payment-Recipient'', recipient paymentRequest),
                   (''X-Payment-Id'', paymentId paymentRequest)],
                res_body =
                  \<lparr>b_error = ''Payment Required'',
                   b_code = 402,
                   b_message = c_description config,
                   b_payment =
                     \<lparr>p_id = paymentId paymentRequest,
                      p_amount = amount paymentRequest,
                      p_currency = currency paymentRequest,
                      p_recipient = recipient paymentRequest,
                      p_deadline = deadline paymentRequest,
                      p_description = c_description config,
                      p_facilitator = facilitatorUrl svc\<rparr>\<rparr>\<rparr>,
               svc', fx)))"

subsection \<open>verifyPayment and settlePayment\<close>

definition verifyUrl :: "X402PayService \<Rightarrow> string" where
  "verifyUrl svc = facilitatorUrl svc @ ''/verify''"

definition settleUrl :: "X402PayService \<Rightarrow> string" where
  "settleUrl svc = facilitatorUrl svc @ ''/settle''"

definition verifyBody ::
  "string \<Rightarrow> string \<Rightarrow> X402PaymentResponse \<Rightarrow> (string \<times> string) list" where
  "verifyBody pid txHash pendingPayment =
     [(''paymentId'', pid),
      (''transactionHash'', txHash),
      (''expectedAmount'', amount pendingPayment),
      (''expectedRecipient'', recipient pendingPayment),
      (''expectedCurrency'', currency pendingPayment)]"

definition settleBody :: "string \<Rightarrow> string \<Rightarrow> (string \<times> string) list" where
  "settleBody pid txHash = [(''paymentId'', pid), (''transactionHash'', txHash)]"

text \<open>
  \<open>settlePayment\<close>: one request to \<open>/settle\<close>; a rejected request and a response that is
  not OK are logged, and nothing is thrown or returned.
\<close>

definition settlePayment ::
  "VerifyEnv \<Rightarrow> X402PayService \<Rightarrow> string \<Rightarrow> string \<Rightarrow> Effect list" where
  "settlePayment env svc pid txHash =
     HttpPost (settleUrl svc) (settleBody pid txHash) #
     (case fetch env (settleUrl svc) (settleBody pid txHash) of
        FetchRejected e \<Rightarrow> [ConsoleError ''[X402 SETTLEMENT ERROR]'']
      | FetchResolved response \<Rightarrow>
          if \<not> ok response then [ConsoleError ''[X402 SETTLEMENT FAILED]'']
          else [ConsoleLog ''[X402 PAYMENT SETTLED]''])"

text \<open>The first statements of the \<open>try\<close> block: the lookup, which throws on a miss.\<close>

definition verifyPayment_lookup ::
  "X402PayService \<Rightarrow> string \<Rightarrow> JsError + X402PaymentResponse" where
  "verifyPayment_lookup svc pid =
     (case Map_get (pendingPayments svc) pid of
        None \<Rightarrow> Inl (JsError ''Error'' ''Payment not found'')
      | Some pendingPayment \<Rightarrow> Inr pendingPayment)"

text \<open>The awaited \<open>fetch\<close>, the \<open>response.ok\<close> check and \<open>response.json()\<close>.\<close>

definition verifyPayment_response :: "FetchOutcome \<Rightarrow> JsError + X402VerificationResult" where
  "verifyPayment_response outcome =
     (case outcome of
        FetchRejected e \<Rightarrow> Inl e
      | FetchResolved response \<Rightarrow>
          if \<not> ok response
          then Inl (JsError ''Error'' (''Verification failed: '' @ statusText response))
          else (case json response of
                  JsonInvalid \<Rightarrow> Inl (JsError ''SyntaxError'' ''Unexpected token'')
                | JsonNull \<Rightarrow> Inl (JsError ''TypeError'' ''Cannot read properties of null'')
                | JsonObject verificationResult \<Rightarrow> Inr verificationResult))"

text \<open>\<open>a || b\<close> on an optional string: an absent or empty \<open>a\<close> gives \<open>b\<close>.\<close>

definition or_string :: "string option \<Rightarrow> string \<Rightarrow> string" where
  "or_string a b = (case a of None \<Rightarrow> b | Some s \<Rightarrow> if s = [] then b else s)"

definition or_false :: "bool option \<Rightarrow> bool" where
  "or_false a = (case a of None \<Rightarrow> False | Some b \<Rightarrow> b)"

text \<open>
  The rest of the \<open>try\<close> block, from the \<open>fetch\<close> on, for the \<open>pendingPayment\<close> the lookup
  returned. The request is sent; the statements after the \<open>await\<close> run when the answer
  arrives, on the service as it is then. A throw is \<open>Inl\<close>; the effects up to it are kept.
\<close>

definition verifyPayment_awaited ::
  "VerifyEnv \<Rightarrow> X402PayService \<Rightarrow> string \<Rightarrow> string \<Rightarrow> X402PaymentResponse
     \<Rightarrow> (JsError + X402PaymentVerification \<times> X402PayService) \<times> Effect list" where
  "verifyPayment_awaited env svc pid txHash pendingPayment =
     (let url = verifyUrl svc; body = verifyBody pid txHash pendingPayment
      in case verifyPayment_response (fetch env url body) of
           Inl e \<Rightarrow> (Inl e, [HttpPost url body])
         | Inr verificationResult \<Rightarrow>
             (let verification =
                    \<lparr>v_paymentId = pid,
                     v_transactionHash = txHash,
                     verified = or_false (r_verified verificationResult),
                     v_amount = or_string (r_amount verificationResult) (amount pendingPayment),
                     timestamp = dateNow env div 1000\<rparr>
              in if verified verification
                 then (let svc' = svc\<lparr>pendingPayments := Map_delete (pendingPayments svc) pid\<rparr>
                       in (Inr (verification, svc'),
                           [HttpPost url body, MapDelete pid,
                            ConsoleLog ''[X402 PAYMENT VERIFIED]'']
                           @ settlePayment env svc' pid txHash))
                 else (Inr (verification, svc),
                       [HttpPost url body, ConsoleLog ''[X402 PAYMENT FAILED]''])))"

definition verifyPayment_try ::
  "VerifyEnv \<Rightarrow> X402PayService \<Rightarrow> string \<Rightarrow> string
     \<Rightarrow> (JsError + X402PaymentVerification \<times> X402PayService) \<times> Effect list" where
  "verifyPayment_try env svc pid txHash =
     (case verifyPayment_lookup svc pid of
        Inl e \<Rightarrow> (Inl e, [])
      | Inr pendingPayment \<Rightarrow> verifyPayment_awaited env svc pid txHash pendingPayment)"

text \<open>The result the \<open>catch\<close> block returns.\<close>

definition unverified :: "VerifyEnv \<Rightarrow> string \<Rightarrow> string \<Rightarrow> X402PaymentVerification" where
  "unverified env pid txHash =
     \<lparr>v_paymentId = pid, v_transactionHash = txHash, verified = False,
      v_amount = ''0'', timestamp = dateNow env div 1000\<rparr>"

text \<open>
  The \<open>catch\<close> block around the whole body: whatever was thrown is logged and turned into
  the unverified result; the service is as the \<open>try\<close> block left it, which throws only
  before it writes.
\<close>

definition verifyPayment_catch ::
  "VerifyEnv \<Rightarrow> X402PayService \<Rightarrow> string \<Rightarrow> string
     \<Rightarrow> (JsError + X402PaymentVerification \<times> X402PayService) \<times> Effect list
     \<Rightarrow> X402PaymentVerification \<times> X402PayService \<times> Effect list" where
  "verifyPayment_catch env svc pid txHash r =
     (case r of
        (Inl e, fx) \<Rightarrow>
          (unverified env pid txHash, svc, fx @ [ConsoleError ''[X402 VERIFICATION ERROR]''])
      | (Inr (verification, svc'), fx) \<Rightarrow> (verification, svc', fx))"

definition verifyPayment ::
  "VerifyEnv \<Rightarrow> X402PayService \<Rightarrow> string \<Rightarrow> string
     \<Rightarrow> X402PaymentVerification \<times> X402PayService \<times> Effect list" where
  "verifyPayment env svc pid txHash =
     verifyPayment_catch env svc pid txHash (verifyPayment_try env svc pid txHash)"

definition isPaymentPending :: "X402PayService \<Rightarrow> string \<Rightarrow> bool" where
  "isPaymentPending svc pid = Map_has (pendingPayments svc) pid"

definition getPendingPayment :: "X402PayService \<Rightarrow> string \<Rightarrow> X402PaymentResponse option" where
  "getPendingPayment svc pid = Map_get (pendingPayments svc) pid"

subsection \<open>cleanupExpiredPayments\<close>

text \<open>
  The loop over \<open>pendingPayments.entries()\<close>: every entry visited whose deadline is below
  \<open>now\<close> is deleted from the map by its key and logged.
\<close>

fun cleanup_loop ::
  "int \<Rightarrow> (string \<times> X402PaymentResponse) list \<Rightarrow> X402PaymentResponse js_map \<times> Effect list
     \<Rightarrow> X402PaymentResponse js_map \<times> Effect list" where
  "cleanup_loop now [] st = st"
| "cleanup_loop now ((pid, payment) # entries) (m, fx) =
     (if deadline payment < now
      then cleanup_loop now entries
             (Map_delete m pid, fx @ [MapDelete pid, ConsoleLog ''[X402 PAYMENT EXPIRED]''])
      else cleanup_loop now entries (m, fx))"

definition cleanupExpiredPayments ::
  "int \<Rightarrow> X402PayService \<Rightarrow> X402PayService \<times> Effect list" where
  "cleanupExpiredPayments nowMs svc =
     (let now = nowMs div 1000
      in case cleanup_loop now (pendingPayments svc) (pendingPayments svc, []) of
           (m, fx) \<Rightarrow> (svc\<lparr>pendingPayments := m\<rparr>, fx))"

section \<open>Calls on one service, one after another or overlapping\<close>

text \<open>
  The operations that change \<open>pendingPayments\<close>, as requests reach the service one
  after another: issuing a challenge, verifying a payment, the expiry sweep.
\<close>

datatype Op =
    OpIssue IssueEnv Scenario
  | OpVerify VerifyEnv string string
  | OpCleanup int

fun run_op :: "X402PayService \<Rightarrow> Op \<Rightarrow> X402PayService" where
  "run_op svc (OpIssue env scenario) = fst (snd (generatePaymentRequest env svc scenario))"
| "run_op svc (OpVerify env pid txHash) = fst (snd (verifyPayment env svc pid txHash))"
| "run_op svc (OpCleanup nowMs) = fst (cleanupExpiredPayments nowMs svc)"

definition run_ops :: "X402PayService \<Rightarrow> Op list \<Rightarrow> X402PayService" where
  "run_ops svc ops = foldl run_op svc ops"

text \<open>
  An operation that stores a challenge under the id \<open>pid\<close>.
\<close>

fun issues :: "string \<Rightarrow> Op \<Rightarrow> bool" where
  "issues pid (OpIssue env scenario) = (uuidv4 env = pid)"
| "issues pid (OpVerify env pid' txHash) = False"
| "issues pid (OpCleanup nowMs) = False"

text \<open>
  \<open>verifyPayment\<close> is an \<open>async\<close> function: it runs up to its first \<open>await\<close>
  (the lookup and the sending of the request), and the rest runs when the answer arrives.
  \<open>verifyPayment_resumed\<close> is that rest, for the result the lookup gave earlier, on the
  service as it is when the answer arrives.
\<close>

definition verifyPayment_resumed ::
  "VerifyEnv \<Rightarrow> X402PayService \<Rightarrow> string \<Rightarrow> string \<Rightarrow> JsError + X402PaymentResponse
     \<Rightarrow> X402PaymentVerification \<times> X402PayService \<times> Effect list" where
  "verifyPayment_resumed env svc pid txHash looked =
     verifyPayment_catch env svc pid txHash
       (case looked of
          Inl e \<Rightarrow> (Inl e, [])
        | Inr pendingPayment \<Rightarrow> verifyPayment_awaited env svc pid txHash pendingPayment)"

text \<open>
  Two calls for the same id that overlap: both run their lookup before either answer
  arrives; then the first call is resumed, then the second.
\<close>

definition verifyPayment_overlapping ::
  "VerifyEnv \<Rightarrow> VerifyEnv \<Rightarrow> X402PayService \<Rightarrow> string \<Rightarrow> string \<Rightarrow> string
     \<Rightarrow> X402PaymentVerification \<times> X402PaymentVerification \<times> X402PayService" where
  "verifyPayment_overlapping envA envB svc pid txA txB =
     (let lookedA = verifyPayment_lookup svc pid;
          lookedB = verifyPayment_lookup svc pid
      in case verifyPayment_resumed envA svc pid txA lookedA of
           (vA, svc1, fxA) \<Rightarrow>
             (case verifyPayment_resumed envB svc1 pid txB lookedB of
                (vB, svc2, fxB) \<Rightarrow> (vA, vB, svc2)))"

text \<open>
  The same service with the deadline of the challenge stored under \<open>pid\<close> set to \<open>d\<close>.
\<close>

definition with_deadline :: "X402PayService \<Rightarrow> string \<Rightarrow> int \<Rightarrow> X402PayService" where
  "with_deadline svc pid d =
     svc\<lparr>pendingPayments :=
           map (\<lambda>(k, q). if k = pid then (k, q\<lparr>deadline := d\<rparr>) else (k, q))
             (pendingPayments svc)\<rparr>"

section \<open>Decimal token amounts: parseUnits and formatUnits\<close>

text \<open>
  Modelled from the spec: \<open>parseUnits\<close> and \<open>formatUnits\<close> are imported from the
  viem package, and their code is not among the sources of the repository. The spec has
  amounts "scaled to the token's decimal precision" and the example of \<open>"10.5"\<close> at 6
  decimals, which is the raw unit \<open>10500000\<close> and is shown again as \<open>"10.5"\<close>. The
  definitions below follow that: a decimal string is read digit by digit, the fraction is
  padded with zeros to the precision, and a raw amount is written with the point inserted
  and the zeros at the end of the fraction left out.
\<close>

definition is_digit :: "char \<Rightarrow> bool" where
  "is_digit c = (c \<in> set ''0123456789'')"

definition digit_val :: "char \<Rightarrow> nat" where
  "digit_val c =
     (if is_digit c then length (takeWhile (\<lambda>d. d \<noteq> c) ''0123456789'') else 0)"

definition digit_char :: "nat \<Rightarrow> char" where
  "digit_char n = ''0123456789'' ! min n 9"

text \<open>
  \<open>BigInt(s)\<close> for a string of decimal digits; the empty string is \<open>0n\<close>.
\<close>

definition nat_of_digits :: "string \<Rightarrow> nat" where
  "nat_of_digits s = foldl (\<lambda>a c. 10 * a + digit_val c) 0 s"

text \<open>
  \<open>toString()\<close> of a \<open>bigint\<close> that is not negative.
\<close>

fun digits_of_nat :: "nat \<Rightarrow> string" where
  "digits_of_nat n =
     (if n < 10 then [digit_char n] else digits_of_nat (n div 10) @ [digit_char (n mod 10)])"

declare digits_of_nat.simps [simp del]

definition strip_trailing_zeros :: "string \<Rightarrow> string" where
  "strip_trailing_zeros s = rev (dropWhile (\<lambda>c. c = CHR ''0'') (rev s))"

text \<open>
  The strings \<open>parseUnits\<close> accepts: an optional sign, digits, an optional point, digits.
\<close>

definition valid_decimal :: "string \<Rightarrow> bool" where
  "valid_decimal str =
     (let s = (case str of [] \<Rightarrow> [] | c # cs \<Rightarrow> if c = CHR ''-'' then cs else str);
          rest = dropWhile is_digit s;
          after = (case rest of [] \<Rightarrow> [] | c # cs \<Rightarrow> if c = CHR ''.'' then cs else rest)
      in list_all is_digit after)"

text \<open>
  \<open>s.split('.')\<close> on such a string: the part before the point and, if there is a point,
  the part after it.
\<close>

definition split_dot :: "string \<Rightarrow> string \<times> string option" where
  "split_dot str =
     (takeWhile (\<lambda>c. c \<noteq> CHR ''.'') str,
      case dropWhile (\<lambda>c. c \<noteq> CHR ''.'') str of [] \<Rightarrow> None | c # cs \<Rightarrow> Some cs)"

text \<open>
  Modelled from the spec: viem's \<open>parseUnits\<close>, which is not among the sources. The
  amount times ten to the precision; a fraction longer than the precision is rounded half
  up at the last digit kept; a string that is not a decimal number is an error.
\<close>

definition parseUnits :: "string \<Rightarrow> nat \<Rightarrow> JsError + int" where
  "parseUnits str decimals =
     (if \<not> valid_decimal str
      then Inl (JsError ''InvalidDecimalNumberError'' str)
      else
        (case split_dot str of
           (integer0, fractionOpt) \<Rightarrow>
             (let negative = (case integer0 of [] \<Rightarrow> False | c # cs \<Rightarrow> c = CHR ''-'');
                  integer = (if negative then tl integer0 else integer0);
                  fraction = strip_trailing_zeros
                               (case fractionOpt of None \<Rightarrow> ''0'' | Some f \<Rightarrow> f);
                  digits =
                    (if length fraction > decimals
                     then integer @ take decimals fraction
                     else integer @ fraction @ replicate (decimals - length fraction) CHR ''0'');
                  round_up =
                    (if length fraction > decimals \<and> 5 \<le> digit_val (fraction ! decimals)
                     then 1 else 0);
                  magnitude = nat_of_digits digits + round_up
              in if negative \<and> digits = [] then Inl (JsError ''SyntaxError'' ''Cannot convert - to a BigInt'')
                 else Inr (if negative then - int magnitude else int magnitude))))"

text \<open>
  Modelled from the spec: viem's \<open>formatUnits\<close>, which is not among the sources. The
  raw amount with the point inserted \<open>decimals\<close> digits from the right, without the zeros
  at the end of the fraction and without the point when no fraction is left.
\<close>

definition formatUnits :: "int \<Rightarrow> nat \<Rightarrow> string" where
  "formatUnits raw decimals =
     (let negative = raw < 0;
          display0 = digits_of_nat (nat \<bar>raw\<bar>);
          display = replicate (decimals - length display0) CHR ''0'' @ display0;
          integer = take (length display - decimals) display;
          fraction = strip_trailing_zeros (drop (length display - decimals) display)
      in (if negative then ''-'' else [])
         @ (if integer = [] then ''0'' else integer)
         @ (if fraction = [] then [] else CHR ''.'' # fraction))"

text \<open>
  The canonical way to write an amount: no zeros in front of the whole part (\<open>0\<close> when
  nothing is left), no zeros at the end of the fraction, no point without a fraction.
\<close>

definition strip_leading_zeros :: "string \<Rightarrow> string" where
  "strip_leading_zeros s = dropWhile (\<lambda>c. c = CHR ''0'') s"

definition canonical_amount :: "string \<Rightarrow> string" where
  "canonical_amount str =
     (case split_dot str of
        (integer, fractionOpt) \<Rightarrow>
          (let whole = strip_leading_zeros integer;
               fraction = strip_trailing_zeros (case fractionOpt of None \<Rightarrow> [] | Some f \<Rightarrow> f)
           in (if whole = [] then ''0'' else whole)
              @ (if fraction = [] then [] else CHR ''.'' # fraction)))"

definition whole_part :: "string \<Rightarrow> string" where
  "whole_part i = (if strip_leading_zeros i = [] then ''0'' else strip_leading_zeros i)"

definition fraction_part :: "string \<Rightarrow> string" where
  "fraction_part f =
     (if strip_trailing_zeros f = [] then [] else CHR ''.'' # strip_trailing_zeros f)"

text \<open>
  A decimal amount without a sign, and the number of digits it has after the point.
\<close>

definition unsigned_decimal :: "string \<Rightarrow> bool" where
  "unsigned_decimal str =
     (valid_decimal str \<and> (case str of [] \<Rightarrow> True | c # cs \<Rightarrow> c \<noteq> CHR ''-''))"

definition fraction_digits :: "string \<Rightarrow> nat" where
  "fraction_digits str = (case snd (split_dot str) of None \<Rightarrow> 0 | Some f \<Rightarrow> length f)"

section \<open>The smart wallet service (SmartWalletService)\<close>

datatype UserOperationStatus = Pending | Complete | Failed

record SmartWalletUserOperation =
  userOpHash :: string
  transactionHash :: "string option"
  uo_status :: UserOperationStatus
  receipt :: "string option"
  uo_error :: "JsError option"

record TokenBalance =
  token :: string
  symbol :: string
  balance :: string
  decimals :: nat
  formattedBalance :: string

text \<open>
  The arguments of a contract call, as far as the service builds them.
\<close>

datatype AbiArg = AbiString string | AbiBigInt int | AbiNumber int | AbiArray "AbiArg list"

record AbiFunction =
  abi_constant :: bool
  abi_inputs :: "(string \<times> string) list"
  abi_name :: string
  abi_outputs :: "(string \<times> string) list"

type_synonym Abi = "AbiFunction list"

definition ERC20_ABI :: Abi where
  "ERC20_ABI =
     [\<lparr>abi_constant = True, abi_inputs = [(''_owner'', ''address'')],
       abi_name = ''balanceOf'', abi_outputs = [(''balance'', ''uint256'')]\<rparr>,
      \<lparr>abi_constant = False, abi_inputs = [(''_to'', ''address''), (''_value'', ''uint256'')],
       abi_name = ''transfer'', abi_outputs = [(''success'', ''bool'')]\<rparr>,
      \<lparr>abi_constant = True, abi_inputs = [],
       abi_name = ''decimals'', abi_outputs = [('''', ''uint8'')]\<rparr>,
      \<lparr>abi_constant = True, abi_inputs = [],
       abi_name = ''symbol'', abi_outputs = [('''', ''string'')]\<rparr>]"

record ContractCallParams =
  contractAddress :: string
  abi :: Abi
  functionName :: string
  args :: "AbiArg list"

record TokenTransferParams =
  tp_tokenAddress :: string
  tp_to :: string
  tp_amount :: string
  tp_decimals :: nat

text \<open>
  What is handed to the provider's \<open>sendUserOperation\<close>.
\<close>

record EvmCall =
  call_to :: string
  call_value :: "int option"
  call_data :: string

record SendUserOperationOptions =
  so_smartAccount :: string
  so_network :: string
  so_paymasterUrl :: string
  so_calls :: "EvmCall list"

text \<open>
  What the provider's \<open>waitForUserOperation\<close> resolves to.
\<close>

record ProviderUserOperation =
  puo_status :: string
  puo_transactionHash :: "string option"
  puo_receipt :: "string option"

text \<open>
  What the service calls outside the repository: the wallet provider
  (\<open>sendUserOperation\<close> rejects or resolves to the operation hash;
  \<open>waitForUserOperation\<close> rejects, resolves, or never settles, which is \<open>None\<close>),
  viem's \<open>encodeFunctionData\<close>, which throws or returns the call data, and the
  read-only contract calls for a token.
\<close>

record WalletEnv =
  sendUserOperation :: "SendUserOperationOptions \<Rightarrow> JsError + string"
  evm_waitForUserOperation :: "string \<Rightarrow> string \<Rightarrow> (JsError + ProviderUserOperation) option"
  encodeFunctionData :: "Abi \<Rightarrow> string \<Rightarrow> AbiArg list \<Rightarrow> JsError + string"
  readBalanceOf :: "string \<Rightarrow> string \<Rightarrow> JsError + nat"
  readDecimals :: "string \<Rightarrow> JsError + nat"
  readSymbol :: "string \<Rightarrow> JsError + string"

text \<open>
  The service: the address of the smart account once \<open>initialize\<close> has set it.
\<close>

record SmartWalletService =
  smartAccount :: "string option"

definition PAYMASTER_URL :: string where
  "PAYMASTER_URL =
     ''https://api.developer.coinbase.com/rpc/v1/base/ysRNUL0e5tLaH0gTgLkD5BA8I8go4AGO''"

definition USDC_ADDRESS :: string where
  "USDC_ADDRESS = ''0x833589fCD6eDb6E08f4c7C32D4f71b54bda02913''"

definition not_initialized :: JsError where
  "not_initialized = JsError ''Error'' ''Smart wallet not initialized''"

text \<open>
  The result the \<open>catch\<close> blocks build.
\<close>

definition failed_operation :: "string \<Rightarrow> JsError \<Rightarrow> SmartWalletUserOperation" where
  "failed_operation h e =
     \<lparr>userOpHash = h, transactionHash = None, uo_status = Failed,
      receipt = None, uo_error = Some e\<rparr>"

text \<open>
  The result of a helper: the user operations it handed to the provider, and how the
  call ends: \<open>None\<close> when it never returns, \<open>Inl\<close> when it throws, \<open>Inr\<close> when it returns.
\<close>

type_synonym WalletResult =
  "SendUserOperationOptions list \<times> (JsError + SmartWalletUserOperation) option"

definition waitForUserOperation ::
  "WalletEnv \<Rightarrow> SmartWalletService \<Rightarrow> string \<Rightarrow> SmartWalletUserOperation option" where
  "waitForUserOperation env svc h =
     (case smartAccount svc of
        None \<Rightarrow>
          Some (failed_operation h (JsError ''TypeError'' ''Cannot read properties of undefined''))
      | Some address \<Rightarrow>
          (case evm_waitForUserOperation env address h of
             None \<Rightarrow> None
           | Some (Inl e) \<Rightarrow> Some (failed_operation h e)
           | Some (Inr userOperation) \<Rightarrow>
               if puo_status userOperation = ''complete''
               then Some \<lparr>userOpHash = h,
                          transactionHash = puo_transactionHash userOperation,
                          uo_status = Complete,
                          receipt = puo_receipt userOperation,
                          uo_error = None\<rparr>
               else Some (failed_operation h (JsError ''Error'' ''Transaction failed''))))"

definition sendNativeTokens ::
  "WalletEnv \<Rightarrow> SmartWalletService \<Rightarrow> string \<Rightarrow> int \<Rightarrow> WalletResult" where
  "sendNativeTokens env svc to wei =
     (case smartAccount svc of
        None \<Rightarrow> ([], Some (Inl not_initialized))
      | Some account \<Rightarrow>
          (let options =
                 \<lparr>so_smartAccount = account, so_network = ''base'',
                  so_paymasterUrl = PAYMASTER_URL,
                  so_calls = [\<lparr>call_to = to, call_value = Some wei, call_data = ''0x''\<rparr>]\<rparr>
           in case sendUserOperation env options of
                Inl e \<Rightarrow> ([options], Some (Inr (failed_operation [] e)))
              | Inr h \<Rightarrow> ([options], map_option Inr (waitForUserOperation env svc h))))"

definition transferTokens ::
  "WalletEnv \<Rightarrow> SmartWalletService \<Rightarrow> TokenTransferParams \<Rightarrow> WalletResult" where
  "transferTokens env svc params =
     (case smartAccount svc of
        None \<Rightarrow> ([], Some (Inl not_initialized))
      | Some account \<Rightarrow>
          (case parseUnits (tp_amount params) (tp_decimals params) of
             Inl e \<Rightarrow> ([], Some (Inr (failed_operation [] e)))
           | Inr units \<Rightarrow>
               (case encodeFunctionData env ERC20_ABI ''transfer''
                       [AbiString (tp_to params), AbiBigInt units] of
                  Inl e \<Rightarrow> ([], Some (Inr (failed_operation [] e)))
                | Inr encoded \<Rightarrow>
                    (let options =
                           \<lparr>so_smartAccount = account, so_network = ''base'',
                            so_paymasterUrl = PAYMASTER_URL,
                            so_calls = [\<lparr>call_to = tp_tokenAddress params, call_value = None,
                                         call_data = encoded\<rparr>]\<rparr>
                     in case sendUserOperation env options of
                          Inl e \<Rightarrow> ([options], Some (Inr (failed_operation [] e)))
                        | Inr h \<Rightarrow>
                            ([options], map_option Inr (waitForUserOperation env svc h))))))"

definition callContract ::
  "WalletEnv \<Rightarrow> SmartWalletService \<Rightarrow> ContractCallParams \<Rightarrow> WalletResult" where
  "callContract env svc params =
     (case smartAccount svc of
        None \<Rightarrow> ([], Some (Inl not_initialized))
      | Some account \<Rightarrow>
          (case encodeFunctionData env (abi params) (functionName params) (args params) of
             Inl e \<Rightarrow> ([], Some (Inr (failed_operation [] e)))
           | Inr encoded \<Rightarrow>
               (let options =
                      \<lparr>so_smartAccount = account, so_network = ''base'',
                       so_paymasterUrl = PAYMASTER_URL,
                       so_calls = [\<lparr>call_to = contractAddress params, call_value = None,
                                    call_data = encoded\<rparr>]\<rparr>
                in case sendUserOperation env options of
                     Inl e \<Rightarrow> ([options], Some (Inr (failed_operation [] e)))
                   | Inr h \<Rightarrow> ([options], map_option Inr (waitForUserOperation env svc h)))))"

text \<open>
  \<open>milestonePayments.map((payment) => parseUnits(payment, 6))\<close>: the first string
  that does not parse throws.
\<close>

fun parse_payments :: "string list \<Rightarrow> JsError + int list" where
  "parse_payments [] = Inr []"
| "parse_payments (payment # rest) =
     (case parseUnits payment 6 of
        Inl e \<Rightarrow> Inl e
      | Inr a \<Rightarrow> (case parse_payments rest of Inl e \<Rightarrow> Inl e | Inr others \<Rightarrow> Inr (a # others)))"

definition createProject ::
  "WalletEnv \<Rightarrow> SmartWalletService \<Rightarrow> string \<Rightarrow> Abi \<Rightarrow> string \<Rightarrow> string \<Rightarrow> string list
     \<Rightarrow> string list \<Rightarrow> WalletResult" where
  "createProject env svc address contractAbi client freelancer milestoneDescriptions
       milestonePayments =
     (case parse_payments milestonePayments of
        Inl e \<Rightarrow> ([], Some (Inl e))
      | Inr payments \<Rightarrow>
          callContract env svc
            \<lparr>contractAddress = address, abi = contractAbi, functionName = ''createProject'',
             args = [AbiString client, AbiString freelancer,
                     AbiArray (map AbiString milestoneDescriptions),
                     AbiArray (map AbiBigInt payments)]\<rparr>)"

definition approveMilestone ::
  "WalletEnv \<Rightarrow> SmartWalletService \<Rightarrow> string \<Rightarrow> Abi \<Rightarrow> int \<Rightarrow> WalletResult" where
  "approveMilestone env svc projectAddress contractAbi milestoneIndex =
     callContract env svc
       \<lparr>contractAddress = projectAddress, abi = contractAbi,
        functionName = ''approveMilestone'', args = [AbiNumber milestoneIndex]\<rparr>"

definition getTokenBalance ::
  "WalletEnv \<Rightarrow> SmartWalletService \<Rightarrow> string \<Rightarrow> JsError + TokenBalance option" where
  "getTokenBalance env svc tokenAddress =
     (case smartAccount svc of
        None \<Rightarrow> Inl not_initialized
      | Some account \<Rightarrow>
          (case readBalanceOf env tokenAddress account of
             Inl e \<Rightarrow> Inr None
           | Inr balanceResult \<Rightarrow>
               (case (readDecimals env tokenAddress, readSymbol env tokenAddress) of
                  (Inr d, Inr s) \<Rightarrow>
                    (let shown = digits_of_nat balanceResult
                     in Inr (Some \<lparr>token = tokenAddress, symbol = s, balance = shown,
                                    decimals = d,
                                    formattedBalance =
                                      formatUnits (int (nat_of_digits shown)) d\<rparr>))
                | _ \<Rightarrow> Inr None)))"

text \<open>
  The user operation every helper builds around its one call.
\<close>

definition user_operation :: "string \<Rightarrow> EvmCall \<Rightarrow> SendUserOperationOptions" where
  "user_operation account call =
     \<lparr>so_smartAccount = account, so_network = ''base'', so_paymasterUrl = PAYMASTER_URL,
      so_calls = [call]\<rparr>"

section \<open>Example inputs\<close>

definition example_payment :: X402PaymentResponse where
  "example_payment =
     \<lparr>paymentId = ''pay-1'', amount = ''1000000'', currency = ''USDC'',
      recipient = ''0x742d35Cc6635C0532925a3b8D716C4C3e4d4Cc62'',
      deadline = 1700003600, nonce = ''5f2a''\<rparr>"

definition example_service :: X402PayService where
  "example_service =
     \<lparr>facilitatorUrl = ''https://facilitator.x402.xyz'',
      recipientAddress = ''0x742d35Cc6635C0532925a3b8D716C4C3e4d4Cc62'',
      pendingPayments = [(''pay-1'', example_payment)]\<rparr>"

definition late_payment :: X402PaymentResponse where
  "late_payment = example_payment\<lparr>paymentId := ''pay-3'', deadline := 1700009999\<rparr>"

definition example_two_sessions :: X402PayService where
  "example_two_sessions =
     example_service\<lparr>pendingPayments := [(''pay-1'', example_payment), (''pay-3'', late_payment)]\<rparr>"

definition accepting_response :: HttpResponse where
  "accepting_response =
     \<lparr>ok = True, status = 200, statusText = ''OK'',
      json = JsonObject \<lparr>r_verified = Some True, r_amount = None, r_reason = None\<rparr>\<rparr>"

definition rejecting_response :: HttpResponse where
  "rejecting_response =
     \<lparr>ok = True, status = 200, statusText = ''OK'',
      json = JsonObject \<lparr>r_verified = Some False, r_amount = None,
                         r_reason = Some ''amount mismatch''\<rparr>\<rparr>"

definition facilitator_accepts :: VerifyEnv where
  "facilitator_accepts =
     \<lparr>fetch = (\<lambda>url body. FetchResolved accepting_response), dateNow = 1700000000000\<rparr>"

definition facilitator_rejects :: VerifyEnv where
  "facilitator_rejects =
     \<lparr>fetch = (\<lambda>url body. FetchResolved rejecting_response), dateNow = 1700000000000\<rparr>"

definition facilitator_down :: VerifyEnv where
  "facilitator_down =
     \<lparr>fetch = (\<lambda>url body. FetchRejected (JsError ''TypeError'' ''fetch failed'')),
      dateNow = 1700000000000\<rparr>"

definition facilitator_settle_down :: VerifyEnv where
  "facilitator_settle_down =
     \<lparr>fetch = (\<lambda>url body.
                 if url = ''https://facilitator.x402.xyz/settle''
                 then FetchRejected (JsError ''TypeError'' ''fetch failed'')
                 else FetchResolved accepting_response),
      dateNow = 1800000000000\<rparr>"

definition example_issue :: IssueEnv where
  "example_issue = \<lparr>uuidv4 = ''pay-2'', randomBytesHex = ''9c41'', issueNow = 1700000000999\<rparr>"

text \<open>
  A generator that returns the id of the challenge already stored in \<open>example_service\<close>.
\<close>

definition colliding_issue :: IssueEnv where
  "colliding_issue = \<lparr>uuidv4 = ''pay-1'', randomBytesHex = ''77d0'', issueNow = 1700000500000\<rparr>"

definition example_ops :: "Op list" where
  "example_ops =
     [OpCleanup 1700000100000,
      OpVerify facilitator_accepts ''pay-1'' ''0xaaa'',
      OpIssue example_issue DISPUTE_BOND]"

definition example_wallet :: SmartWalletService where
  "example_wallet = \<lparr>smartAccount = Some ''0x1111111111111111111111111111111111111111''\<rparr>"

definition completed_operation :: ProviderUserOperation where
  "completed_operation =
     \<lparr>puo_status = ''complete'', puo_transactionHash = Some ''0xfeed'',
      puo_receipt = Some ''receipt''\<rparr>"

definition pending_operation :: ProviderUserOperation where
  "pending_operation =
     \<lparr>puo_status = ''pending'', puo_transactionHash = None, puo_receipt = None\<rparr>"

definition provider_completes :: WalletEnv where
  "provider_completes =
     \<lparr>sendUserOperation = (\<lambda>options. Inr ''0xop''),
      evm_waitForUserOperation = (\<lambda>address h. Some (Inr completed_operation)),
      encodeFunctionData = (\<lambda>a f xs. Inr ''0xa9059cbb''),
      readBalanceOf = (\<lambda>t a. Inr 10500000),
      readDecimals = (\<lambda>t. Inr 6),
      readSymbol = (\<lambda>t. Inr ''USDC'')\<rparr>"

definition provider_never_settles :: WalletEnv where
  "provider_never_settles =
     provider_completes\<lparr>evm_waitForUserOperation := (\<lambda>address h. None)\<rparr>"

definition provider_reports_pending :: WalletEnv where
  "provider_reports_pending =
     provider_completes\<lparr>evm_waitForUserOperation := (\<lambda>address h. Some (Inr pending_operation))\<rparr>"

section \<open>Facts about the map and the loop\<close>

lemmas example_defs = example_payment_def example_service_def accepting_response_def
  facilitator_accepts_def rejecting_response_def facilitator_rejects_def facilitator_down_def
  facilitator_settle_down_def example_issue_def example_ops_def late_payment_def
  example_two_sessions_def

lemmas x402_defs = verifyPayment_def verifyPayment_try_def verifyPayment_catch_def
  verifyPayment_lookup_def verifyPayment_awaited_def verifyPayment_response_def
  settlePayment_def verifyUrl_def settleUrl_def verifyBody_def settleBody_def
  unverified_def or_false_def or_string_def Map_get_def Map_has_def Map_set_def
  Map_delete_def Map_ok_def isPaymentPending_def getPendingPayment_def Let_def

lemmas wallet_example_defs = example_wallet_def completed_operation_def provider_completes_def
  provider_never_settles_def pending_operation_def provider_reports_pending_def

lemma Map_get_delete: "Map_get (Map_delete m k) k' = (if k' = k then None else Map_get m k')"
  by (simp add: Map_get_def Map_delete_def AList.delete_conv')

lemma Map_get_set: "Map_get (Map_set m k v) k' = (if k' = k then Some v else Map_get m k')"
  by (simp add: Map_get_def Map_set_def AList.update_conv')

lemma Map_ok_set: "Map_ok m \<Longrightarrow> Map_ok (Map_set m k v)"
  by (simp add: Map_ok_def Map_set_def AList.distinct_update)

lemma Map_ok_delete: "Map_ok m \<Longrightarrow> Map_ok (Map_delete m k)"
  by (simp add: Map_ok_def Map_delete_def AList.distinct_delete)

lemma Map_ok_filter: "Map_ok m \<Longrightarrow> Map_ok (filter P m)"
  by (simp add: Map_ok_def distinct_map_filter)

lemma Map_set_fresh: "Map_get m k = None \<Longrightarrow> Map_set m k v = m @ [(k, v)]"
  unfolding Map_get_def Map_set_def
  by (induction m) (auto split: if_splits)

lemma Map_delete_absent: "Map_get m k = None \<Longrightarrow> Map_delete m k = m"
  unfolding Map_get_def Map_delete_def
  by (simp add: map_of_eq_None_iff)

lemma Map_set_present:
  "Map_get m k = Some w \<Longrightarrow> length (Map_set m k v) = length m"
  unfolding Map_get_def Map_set_def
  by (induction m) (auto split: if_splits)

lemma cleanup_loop_fst:
  "fst (cleanup_loop now es (m, fx)) =
     filter (\<lambda>e. fst e \<notin> fst ` {x \<in> set es. deadline (snd x) < now}) m"
proof (induction es arbitrary: m fx)
  case Nil
  then show ?case by simp
next
  case (Cons e es)
  obtain pid payment where e: "e = (pid, payment)" by (cases e)
  show ?case
  proof (cases "deadline payment < now")
    case True
    have "fst (cleanup_loop now (e # es) (m, fx)) =
            filter (\<lambda>e. fst e \<notin> fst ` {x \<in> set es. deadline (snd x) < now}) (Map_delete m pid)"
      using True e Cons.IH by simp
    also have "\<dots> = filter (\<lambda>y. fst y \<notin> fst ` {x \<in> set (e # es). deadline (snd x) < now}) m"
    proof -
      have S: "{x \<in> set (e # es). deadline (snd x) < now} =
                 insert e {x \<in> set es. deadline (snd x) < now}"
        using True e by auto
      show ?thesis
        unfolding S Map_delete_def AList.delete_eq filter_filter
        by (rule filter_cong) (auto simp: e)
    qed
    finally show ?thesis .
  next
    case False
    have "{x \<in> set (e # es). deadline (snd x) < now} = {x \<in> set es. deadline (snd x) < now}"
      using False e by auto
    then show ?thesis using False e Cons.IH by simp
  qed
qed

lemma cleanup_loop_self:
  assumes "Map_ok m"
  shows "fst (cleanup_loop now m (m, fx)) = filter (\<lambda>(pid, payment). \<not> deadline payment < now) m"
proof -
  have "\<And>e. e \<in> set m \<Longrightarrow>
          (fst e \<notin> fst ` {x \<in> set m. deadline (snd x) < now}) = (\<not> deadline (snd e) < now)"
  proof -
    fix e assume e: "e \<in> set m"
    have "\<And>x. x \<in> set m \<Longrightarrow> fst x = fst e \<Longrightarrow> x = e"
      using assms e unfolding Map_ok_def by (metis eq_key_imp_eq_value prod.collapse)
    then show "(fst e \<notin> fst ` {x \<in> set m. deadline (snd x) < now}) = (\<not> deadline (snd e) < now)"
      using e by auto
  qed
  then have "filter (\<lambda>e. fst e \<notin> fst ` {x \<in> set m. deadline (snd x) < now}) m =
             filter (\<lambda>e. \<not> deadline (snd e) < now) m"
    by (intro filter_cong refl)
  then show ?thesis
    unfolding cleanup_loop_fst by (simp add: split_def)
qed

lemma cleanup_loop_no_expired:
  "\<forall>e \<in> set es. \<not> deadline (snd e) < now \<Longrightarrow> cleanup_loop now es st = st"
  by (induction now es st rule: cleanup_loop.induct) auto

lemma cleanup_loop_keeps_absent:
  "Map_get (fst st) pid = None \<Longrightarrow> Map_get (fst (cleanup_loop now es st)) pid = None"
  by (induction now es st rule: cleanup_loop.induct) (auto simp: Map_get_delete)

lemma cleanup_keeps_absent:
  assumes "Map_get (pendingPayments svc) pid = None"
  shows "Map_get (pendingPayments (fst (cleanupExpiredPayments nowMs svc))) pid = None"
proof -
  have "Map_get (fst (cleanup_loop (nowMs div 1000) (pendingPayments svc)
                        (pendingPayments svc, []))) pid = None"
    using assms by (intro cleanup_loop_keeps_absent) simp
  then show ?thesis
    by (simp add: cleanupExpiredPayments_def split_beta Let_def)
qed

section \<open>The ways through verifyPayment\<close>

lemma verifyPayment_not_found:
  assumes "Map_get (pendingPayments svc) pid = None"
  shows "verifyPayment env svc pid txHash =
           (unverified env pid txHash, svc, [ConsoleError ''[X402 VERIFICATION ERROR]''])"
  using assms
  by (simp add: verifyPayment_def verifyPayment_try_def verifyPayment_catch_def
      verifyPayment_lookup_def)

lemma verifyPayment_thrown:
  assumes "Map_get (pendingPayments svc) pid = Some p"
      and "verifyPayment_response (fetch env (verifyUrl svc) (verifyBody pid txHash p)) = Inl e"
  shows "verifyPayment env svc pid txHash =
           (unverified env pid txHash, svc,
            [HttpPost (verifyUrl svc) (verifyBody pid txHash p),
             ConsoleError ''[X402 VERIFICATION ERROR]''])"
  using assms
  by (simp add: verifyPayment_def verifyPayment_try_def verifyPayment_catch_def
      verifyPayment_lookup_def verifyPayment_awaited_def)

lemma verifyPayment_rejected:
  assumes "Map_get (pendingPayments svc) pid = Some p"
      and "verifyPayment_response (fetch env (verifyUrl svc) (verifyBody pid txHash p)) = Inr r"
      and "\<not> or_false (r_verified r)"
  shows "verifyPayment env svc pid txHash =
           (\<lparr>v_paymentId = pid, v_transactionHash = txHash, verified = False,
             v_amount = or_string (r_amount r) (amount p), timestamp = dateNow env div 1000\<rparr>,
            svc,
            [HttpPost (verifyUrl svc) (verifyBody pid txHash p),
             ConsoleLog ''[X402 PAYMENT FAILED]''])"
  using assms
  by (simp add: verifyPayment_def verifyPayment_try_def verifyPayment_catch_def
      verifyPayment_lookup_def verifyPayment_awaited_def)

lemma verifyPayment_accepted:
  assumes "Map_get (pendingPayments svc) pid = Some p"
      and "verifyPayment_response (fetch env (verifyUrl svc) (verifyBody pid txHash p)) = Inr r"
      and "or_false (r_verified r)"
  shows "verifyPayment env svc pid txHash =
           (\<lparr>v_paymentId = pid, v_transactionHash = txHash, verified = True,
             v_amount = or_string (r_amount r) (amount p), timestamp = dateNow env div 1000\<rparr>,
            svc\<lparr>pendingPayments := Map_delete (pendingPayments svc) pid\<rparr>,
            [HttpPost (verifyUrl svc) (verifyBody pid txHash p), MapDelete pid,
             ConsoleLog ''[X402 PAYMENT VERIFIED]'']
            @ settlePayment env (svc\<lparr>pendingPayments := Map_delete (pendingPayments svc) pid\<rparr>)
                pid txHash)"
  using assms
  by (simp add: verifyPayment_def verifyPayment_try_def verifyPayment_catch_def
      verifyPayment_lookup_def verifyPayment_awaited_def Let_def)

lemma verifyPayment_cases:
  obtains (not_found) "Map_get (pendingPayments svc) pid = None"
  | (thrown) p e where "Map_get (pendingPayments svc) pid = Some p"
      "verifyPayment_response (fetch env (verifyUrl svc) (verifyBody pid txHash p)) = Inl e"
  | (rejected) p r where "Map_get (pendingPayments svc) pid = Some p"
      "verifyPayment_response (fetch env (verifyUrl svc) (verifyBody pid txHash p)) = Inr r"
      "\<not> or_false (r_verified r)"
  | (accepted) p r where "Map_get (pendingPayments svc) pid = Some p"
      "verifyPayment_response (fetch env (verifyUrl svc) (verifyBody pid txHash p)) = Inr r"
      "or_false (r_verified r)"
proof (cases "Map_get (pendingPayments svc) pid")
  case None
  then show ?thesis by (rule not_found)
next
  case (Some p)
  show ?thesis
  proof (cases "verifyPayment_response (fetch env (verifyUrl svc) (verifyBody pid txHash p))")
    case (Inl e)
    with Some show ?thesis by (rule thrown)
  next
    case (Inr r)
    with Some show ?thesis by (cases "or_false (r_verified r)") (auto intro: rejected accepted)
  qed
qed

lemma verifyPayment_unverified_keeps_service:
  assumes "verifyPayment env svc pid txHash = (v, svc', fx)" and "\<not> verified v"
  shows "svc' = svc"
proof (cases rule: verifyPayment_cases [where svc = svc and pid = pid and env = env and txHash = txHash])
  case not_found
  then show ?thesis using assms verifyPayment_not_found by simp
next
  case (thrown p e)
  then show ?thesis using assms verifyPayment_thrown by simp
next
  case (rejected p r)
  then show ?thesis using assms verifyPayment_rejected by simp
next
  case (accepted p r)
  then show ?thesis using assms verifyPayment_accepted [of svc pid p env txHash r] by auto
qed

lemma verifyPayment_verified_removes:
  assumes "verifyPayment env svc pid txHash = (v, svc', fx)" and "verified v"
  shows "svc' = svc\<lparr>pendingPayments := Map_delete (pendingPayments svc) pid\<rparr>"
proof (cases rule: verifyPayment_cases [where svc = svc and pid = pid and env = env and txHash = txHash])
  case not_found
  then show ?thesis using assms verifyPayment_not_found [of svc pid env txHash]
    by (auto simp: unverified_def)
next
  case (thrown p e)
  then show ?thesis using assms verifyPayment_thrown [of svc pid p env txHash e]
    by (auto simp: unverified_def)
next
  case (rejected p r)
  then show ?thesis using assms verifyPayment_rejected [of svc pid p env txHash r] by auto
next
  case (accepted p r)
  then show ?thesis using assms verifyPayment_accepted [of svc pid p env txHash r] by auto
qed

lemma verifyPayment_resumed_lookup:
  "verifyPayment_resumed env svc pid txHash (verifyPayment_lookup svc pid) =
     verifyPayment env svc pid txHash"
  by (simp add: verifyPayment_resumed_def verifyPayment_def verifyPayment_try_def)

lemma example_accepting_run:
  "verifyPayment facilitator_accepts example_service ''pay-1'' ''0xaaa'' =
     (\<lparr>v_paymentId = ''pay-1'', v_transactionHash = ''0xaaa'', verified = True,
       v_amount = ''1000000'', timestamp = 1700000000\<rparr>,
      example_service\<lparr>pendingPayments := []\<rparr>,
      [HttpPost ''https://facilitator.x402.xyz/verify''
         [(''paymentId'', ''pay-1''), (''transactionHash'', ''0xaaa''),
          (''expectedAmount'', ''1000000''),
          (''expectedRecipient'', ''0x742d35Cc6635C0532925a3b8D716C4C3e4d4Cc62''),
          (''expectedCurrency'', ''USDC'')],
       MapDelete ''pay-1'', ConsoleLog ''[X402 PAYMENT VERIFIED]'',
       HttpPost ''https://facilitator.x402.xyz/settle''
         [(''paymentId'', ''pay-1''), (''transactionHash'', ''0xaaa'')],
       ConsoleLog ''[X402 PAYMENT SETTLED]''])"
  by (simp add: x402_defs example_defs)

lemma generate_not_pid:
  "uuidv4 env \<noteq> pid \<Longrightarrow>
   Map_get (pendingPayments (fst (snd (generatePaymentRequest env svc scenario)))) pid =
   Map_get (pendingPayments svc) pid"
  by (simp add: generatePaymentRequest_def Let_def Map_get_set)

lemma verify_keeps_absent:
  assumes "Map_get (pendingPayments svc) pid = None"
  shows "Map_get (pendingPayments (fst (snd (verifyPayment env svc pid' txHash)))) pid = None"
proof -
  obtain v svc' fx where run: "verifyPayment env svc pid' txHash = (v, svc', fx)"
    by (cases "verifyPayment env svc pid' txHash")
  show ?thesis
  proof (cases "verified v")
    case True
    from verifyPayment_verified_removes [OF run True] assms run show ?thesis
      by (simp add: Map_get_delete)
  next
    case False
    from verifyPayment_unverified_keeps_service [OF run False] assms run show ?thesis
      by simp
  qed
qed

lemma run_op_keeps_absent:
  "Map_get (pendingPayments svc) pid = None \<Longrightarrow> \<not> issues pid op \<Longrightarrow>
   Map_get (pendingPayments (run_op svc op)) pid = None"
  by (cases op) (simp_all add: generate_not_pid verify_keeps_absent cleanup_keeps_absent)

lemma run_ops_keeps_absent:
  "Map_get (pendingPayments svc) pid = None \<Longrightarrow> \<forall>op \<in> set ops. \<not> issues pid op \<Longrightarrow>
   Map_get (pendingPayments (run_ops svc ops)) pid = None"
  unfolding run_ops_def
  by (induction ops arbitrary: svc) (simp_all add: run_op_keeps_absent)

text \<open>
  Every service reached from one whose keys are pairwise different, as the empty map of
  a new service is, has keys that are pairwise different.
\<close>

lemma Map_ok_run_op: "Map_ok (pendingPayments svc) \<Longrightarrow> Map_ok (pendingPayments (run_op svc op))"
proof (cases op)
  case (OpIssue env scenario)
  assume "Map_ok (pendingPayments svc)"
  then show ?thesis
    using OpIssue by (simp add: generatePaymentRequest_def Let_def Map_ok_set)
next
  case (OpVerify env pid txHash)
  assume ok: "Map_ok (pendingPayments svc)"
  obtain v svc' fx where run: "verifyPayment env svc pid txHash = (v, svc', fx)"
    by (cases "verifyPayment env svc pid txHash")
  show ?thesis
  proof (cases "verified v")
    case True
    from verifyPayment_verified_removes [OF run True] ok run OpVerify show ?thesis
      by (simp add: Map_ok_delete)
  next
    case False
    from verifyPayment_unverified_keeps_service [OF run False] ok run OpVerify show ?thesis
      by simp
  qed
next
  case (OpCleanup nowMs)
  assume "Map_ok (pendingPayments svc)"
  then have "Map_ok (fst (cleanup_loop (nowMs div 1000) (pendingPayments svc)
                            (pendingPayments svc, [])))"
    unfolding cleanup_loop_fst by (rule Map_ok_filter)
  then show ?thesis
    using OpCleanup by (simp add: cleanupExpiredPayments_def split_beta Let_def)
qed

lemma Map_ok_run_ops:
  "Map_ok (pendingPayments svc) \<Longrightarrow> Map_ok (pendingPayments (run_ops svc ops))"
  unfolding run_ops_def
  by (induction ops arbitrary: svc) (simp_all add: Map_ok_run_op)

lemma with_deadline_get:
  "Map_get (pendingPayments (with_deadline svc pid d)) k =
     (if k = pid then map_option (\<lambda>q. q\<lparr>deadline := d\<rparr>) (Map_get (pendingPayments svc) k)
      else Map_get (pendingPayments svc) k)"
proof -
  have "map_of (map (\<lambda>(k, q). if k = pid then (k, q\<lparr>deadline := d\<rparr>) else (k, q)) m) k =
          (if k = pid then map_option (\<lambda>q. q\<lparr>deadline := d\<rparr>) (map_of m k) else map_of m k)"
    for m :: "X402PaymentResponse js_map"
    by (induction m) auto
  then show ?thesis by (simp add: with_deadline_def Map_get_def)
qed

lemma with_deadline_delete:
  "Map_delete (pendingPayments (with_deadline svc pid d)) pid = Map_delete (pendingPayments svc) pid"
proof -
  have "AList.delete pid (map (\<lambda>(k, q). if k = pid then (k, q\<lparr>deadline := d\<rparr>) else (k, q)) m)
          = AList.delete pid m"
    for m :: "X402PaymentResponse js_map"
    by (induction m) (auto simp: AList.delete_eq split: if_splits)
  then show ?thesis by (simp add: with_deadline_def Map_delete_def)
qed

lemma with_deadline_absent:
  assumes "Map_get (pendingPayments svc) pid = None"
  shows "with_deadline svc pid d = svc"
proof -
  have "map_of m pid = None \<Longrightarrow>
        map (\<lambda>(k, q). if k = pid then (k, q\<lparr>deadline := d\<rparr>) else (k, q)) m = m"
    for m :: "X402PaymentResponse js_map"
    by (induction m) (auto split: if_splits)
  then show ?thesis using assms by (simp add: with_deadline_def Map_get_def)
qed

lemma with_deadline_deleted:
  "with_deadline (svc\<lparr>pendingPayments := Map_delete (pendingPayments svc) pid\<rparr>) pid d =
     svc\<lparr>pendingPayments := Map_delete (pendingPayments svc) pid\<rparr>"
  by (rule with_deadline_absent) (simp add: Map_get_delete)

lemma with_deadline_urls:
  "verifyUrl (with_deadline svc pid d) = verifyUrl svc"
  "settleUrl (with_deadline svc pid d) = settleUrl svc"
  by (simp_all add: with_deadline_def verifyUrl_def settleUrl_def)

lemma verifyBody_deadline: "verifyBody pid txHash (p\<lparr>deadline := d\<rparr>) = verifyBody pid txHash p"
  by (simp add: verifyBody_def)

lemma settlePayment_url:
  "settleUrl svc' = settleUrl svc \<Longrightarrow> settlePayment env svc' pid txHash = settlePayment env svc pid txHash"
  by (simp add: settlePayment_def)

lemma verifyPayment_with_deadline:
  "verifyPayment env (with_deadline svc pid d) pid txHash =
     (case verifyPayment env svc pid txHash of
        (v, svc', fx) \<Rightarrow> (v, with_deadline svc' pid d, fx))"
proof (cases rule: verifyPayment_cases [where svc = svc and pid = pid and env = env and txHash = txHash])
  case not_found
  then have "Map_get (pendingPayments (with_deadline svc pid d)) pid = None"
    by (simp add: with_deadline_get)
  then show ?thesis
    using not_found by (simp add: verifyPayment_not_found)
next
  case (thrown p e)
  then have g: "Map_get (pendingPayments (with_deadline svc pid d)) pid = Some (p\<lparr>deadline := d\<rparr>)"
    by (simp add: with_deadline_get)
  have r: "verifyPayment_response (fetch env (verifyUrl (with_deadline svc pid d))
             (verifyBody pid txHash (p\<lparr>deadline := d\<rparr>))) = Inl e"
    using thrown by (simp add: with_deadline_urls verifyBody_deadline)
  show ?thesis
    using verifyPayment_thrown [OF g r] verifyPayment_thrown [OF thrown]
    by (simp add: with_deadline_urls verifyBody_deadline)
next
  case (rejected p r)
  then have g: "Map_get (pendingPayments (with_deadline svc pid d)) pid = Some (p\<lparr>deadline := d\<rparr>)"
    by (simp add: with_deadline_get)
  have r: "verifyPayment_response (fetch env (verifyUrl (with_deadline svc pid d))
             (verifyBody pid txHash (p\<lparr>deadline := d\<rparr>))) = Inr r"
    using rejected by (simp add: with_deadline_urls verifyBody_deadline)
  show ?thesis
    using verifyPayment_rejected [OF g r rejected(3)] verifyPayment_rejected [OF rejected]
    by (simp add: with_deadline_urls verifyBody_deadline)
next
  case (accepted p r)
  then have g: "Map_get (pendingPayments (with_deadline svc pid d)) pid = Some (p\<lparr>deadline := d\<rparr>)"
    by (simp add: with_deadline_get)
  have r: "verifyPayment_response (fetch env (verifyUrl (with_deadline svc pid d))
             (verifyBody pid txHash (p\<lparr>deadline := d\<rparr>))) = Inr r"
    using accepted by (simp add: with_deadline_urls verifyBody_deadline)
  have same: "(with_deadline svc pid d)
                \<lparr>pendingPayments := Map_delete (pendingPayments (with_deadline svc pid d)) pid\<rparr>
              = svc\<lparr>pendingPayments := Map_delete (pendingPayments svc) pid\<rparr>"
    by (simp add: with_deadline_delete) (simp add: with_deadline_def)
  show ?thesis
    using verifyPayment_accepted [OF g r accepted(3)] verifyPayment_accepted [OF accepted]
    by (simp add: with_deadline_urls verifyBody_deadline same with_deadline_deleted)
qed

section \<open>Facts about digit strings\<close>

lemma replicate_numeral: "replicate (numeral k) x = x # replicate (pred_numeral k) x"
  by (simp add: numeral_eq_Suc)

lemmas units_defs = parseUnits_def formatUnits_def valid_decimal_def split_dot_def
  strip_trailing_zeros_def strip_leading_zeros_def nat_of_digits_def is_digit_def digit_val_def
  digit_char_def canonical_amount_def unsigned_decimal_def fraction_digits_def
  Let_def

lemma digit_char_val: "is_digit c \<Longrightarrow> digit_char (digit_val c) = c"
  by (auto simp: is_digit_def digit_val_def digit_char_def)

lemma digit_val_char:
  assumes "v < 10"
  shows "digit_val (digit_char v) = v"
proof -
  have "v \<in> {0, 1, 2, 3, 4, 5, 6, 7, 8, 9}"
    using assms by auto
  then show ?thesis
    by (auto simp: digit_val_def digit_char_def is_digit_def)
qed

lemma digit_val_less: "digit_val c < 10"
  by (auto simp: is_digit_def digit_val_def)

lemma digit_val_zero: "is_digit c \<Longrightarrow> digit_val c = 0 \<longleftrightarrow> c = CHR ''0''"
  by (auto simp: is_digit_def digit_val_def)

lemma digit_not_dot: "is_digit c \<Longrightarrow> c \<noteq> CHR ''.''"
  by (auto simp: is_digit_def)

lemma digit_not_minus: "is_digit c \<Longrightarrow> c \<noteq> CHR ''-''"
  by (auto simp: is_digit_def)

lemma nat_of_digits_Nil: "nat_of_digits [] = 0"
  by (simp add: nat_of_digits_def)

lemma nat_of_digits_snoc: "nat_of_digits (s @ [c]) = 10 * nat_of_digits s + digit_val c"
  by (simp add: nat_of_digits_def)

lemma nat_of_digits_zero_Cons: "nat_of_digits (CHR ''0'' # s) = nat_of_digits s"
  by (simp add: nat_of_digits_def digit_val_def is_digit_def)

lemma nat_of_digits_strip: "nat_of_digits (strip_leading_zeros s @ t) = nat_of_digits (s @ t)"
  by (induction s) (simp_all add: strip_leading_zeros_def nat_of_digits_zero_Cons)

lemma strip_leading_snoc:
  "strip_leading_zeros (s @ [c]) =
     (if strip_leading_zeros s = [] then (if c = CHR ''0'' then [] else [c])
      else strip_leading_zeros s @ [c])"
  by (induction s) (simp_all add: strip_leading_zeros_def)

lemma nat_of_digits_eq_0:
  "list_all is_digit s \<Longrightarrow> nat_of_digits s = 0 \<longleftrightarrow> strip_leading_zeros s = []"
proof (induction s rule: rev_induct)
  case Nil
  then show ?case by (simp add: nat_of_digits_Nil strip_leading_zeros_def)
next
  case (snoc c s)
  then have "is_digit c" and "list_all is_digit s" by simp_all
  then show ?case
    using snoc.IH by (auto simp: nat_of_digits_snoc strip_leading_snoc digit_val_zero)
qed

lemma digits_of_nat_small: "n < 10 \<Longrightarrow> digits_of_nat n = [digit_char n]"
  by (simp add: digits_of_nat.simps)

lemma digits_of_nat_step:
  "0 < m \<Longrightarrow> v < 10 \<Longrightarrow> digits_of_nat (10 * m + v) = digits_of_nat m @ [digit_char v]"
  by (subst digits_of_nat.simps) simp

lemma digits_of_nat_of_digits:
  "list_all is_digit s \<Longrightarrow>
   digits_of_nat (nat_of_digits s) =
     (if strip_leading_zeros s = [] then ''0'' else strip_leading_zeros s)"
proof (induction s rule: rev_induct)
  case Nil
  then show ?case
    by (simp add: nat_of_digits_Nil strip_leading_zeros_def digits_of_nat_small digit_char_def)
next
  case (snoc c s)
  then have c: "is_digit c" and s: "list_all is_digit s" by simp_all
  show ?case
  proof (cases "nat_of_digits s = 0")
    case True
    then have z: "strip_leading_zeros s = []"
      using nat_of_digits_eq_0 [OF s] by simp
    have "digits_of_nat (nat_of_digits (s @ [c])) = [c]"
      using True c by (simp add: nat_of_digits_snoc digits_of_nat_small digit_val_less digit_char_val)
    then show ?thesis
      using z by (simp add: strip_leading_snoc)
  next
    case False
    then have nz: "strip_leading_zeros s \<noteq> []"
      using nat_of_digits_eq_0 [OF s] by simp
    have "digits_of_nat (nat_of_digits (s @ [c])) = digits_of_nat (nat_of_digits s) @ [c]"
      using False c
      by (simp add: nat_of_digits_snoc digits_of_nat_step digit_val_less digit_char_val)
    then show ?thesis
      using nz snoc.IH [OF s] by (simp add: strip_leading_snoc)
  qed
qed

lemma nat_of_digits_of_nat: "nat_of_digits (digits_of_nat n) = n"
proof (induction n rule: digits_of_nat.induct)
  case (1 n)
  show ?case
  proof (cases "n < 10")
    case True
    have "digit_val (digit_char n) = n"
      using True by (rule digit_val_char)
    then show ?thesis
      using True by (simp add: digits_of_nat_small nat_of_digits_def)
  next
    case False
    have v: "digit_val (digit_char (n mod 10)) = n mod 10"
      by (rule digit_val_char) simp
    have "digits_of_nat n = digits_of_nat (n div 10) @ [digit_char (n mod 10)]"
      using False by (subst digits_of_nat.simps) simp
    then show ?thesis
      using 1 False v by (simp add: nat_of_digits_snoc)
  qed
qed

lemma strip_leading_append:
  "strip_leading_zeros (s @ t) =
     (if strip_leading_zeros s = [] then strip_leading_zeros t else strip_leading_zeros s @ t)"
  by (induction s) (simp_all add: strip_leading_zeros_def)

lemma pad_strip_leading:
  "replicate (length s - length (strip_leading_zeros s)) CHR ''0'' @ strip_leading_zeros s = s"
proof (induction s)
  case Nil
  then show ?case by (simp add: strip_leading_zeros_def)
next
  case (Cons c s)
  have le: "length (strip_leading_zeros s) \<le> length s"
    by (simp add: strip_leading_zeros_def length_dropWhile_le)
  show ?case
  proof (cases "c = CHR ''0''")
    case True
    then have "strip_leading_zeros (c # s) = strip_leading_zeros s"
      by (simp add: strip_leading_zeros_def)
    moreover have "length (c # s) - length (strip_leading_zeros s)
                     = Suc (length s - length (strip_leading_zeros s))"
      using le by simp
    ultimately show ?thesis using Cons.IH True by simp
  next
    case False
    then show ?thesis by (simp add: strip_leading_zeros_def)
  qed
qed

lemma all_zero_replicate:
  "strip_leading_zeros s = [] \<Longrightarrow> s = replicate (length s) CHR ''0''"
  by (induction s) (simp_all add: strip_leading_zeros_def split: if_splits)

lemma strip_trailing_Nil: "strip_trailing_zeros [] = []"
  by (simp add: strip_trailing_zeros_def)

lemma strip_trailing_idem: "strip_trailing_zeros (strip_trailing_zeros s) = strip_trailing_zeros s"
proof -
  have "dropWhile (\<lambda>c. c = CHR ''0'') (dropWhile (\<lambda>c. c = CHR ''0'') (rev s))
          = dropWhile (\<lambda>c. c = CHR ''0'') (rev s)"
    by (rule dropWhile_idem)
  then show ?thesis by (simp add: strip_trailing_zeros_def)
qed

lemma strip_trailing_zeros_pad:
  "strip_trailing_zeros (s @ replicate k CHR ''0'') = strip_trailing_zeros s"
proof -
  have "dropWhile (\<lambda>c. c = CHR ''0'') (replicate k CHR ''0'' @ rev s)
          = dropWhile (\<lambda>c. c = CHR ''0'') (rev s)"
    by (induction k) simp_all
  then show ?thesis by (simp add: strip_trailing_zeros_def)
qed

lemma length_strip_trailing: "length (strip_trailing_zeros s) \<le> length s"
  by (simp add: strip_trailing_zeros_def) (metis length_dropWhile_le length_rev)

lemma strip_trailing_digits: "list_all is_digit s \<Longrightarrow> list_all is_digit (strip_trailing_zeros s)"
  unfolding strip_trailing_zeros_def list_all_iff
  by (metis set_rev set_dropWhileD)

lemma digits_zeros: "list_all is_digit (replicate k CHR ''0'')"
  by (induction k) (simp_all add: is_digit_def)

lemma nat_of_digits_whole: "nat_of_digits (whole_part i @ t) = nat_of_digits (i @ t)"
proof (cases "strip_leading_zeros i = []")
  case True
  have "nat_of_digits (i @ t) = nat_of_digits (strip_leading_zeros i @ t)"
    by (simp add: nat_of_digits_strip)
  then show ?thesis using True by (simp add: whole_part_def nat_of_digits_zero_Cons)
next
  case False
  then show ?thesis by (simp add: whole_part_def nat_of_digits_strip)
qed

lemma whole_part_digits: "list_all is_digit i \<Longrightarrow> list_all is_digit (whole_part i)"
proof (cases "strip_leading_zeros i = []")
  case True
  then show ?thesis by (simp add: whole_part_def is_digit_def)
next
  case False
  assume "list_all is_digit i"
  then have "list_all is_digit (dropWhile (\<lambda>c. c = CHR ''0'') i)"
    by (auto simp: list_all_iff dest: set_dropWhileD)
  moreover have "whole_part i = dropWhile (\<lambda>c. c = CHR ''0'') i"
    using False unfolding whole_part_def strip_leading_zeros_def by (simp only: if_False)
  ultimately show ?thesis by simp
qed

lemma display_digits:
  assumes "list_all is_digit i" and "list_all is_digit x"
  shows "replicate (length x - length (digits_of_nat (nat_of_digits (i @ x)))) CHR ''0''
           @ digits_of_nat (nat_of_digits (i @ x)) =
         (if strip_leading_zeros i = [] \<and> x \<noteq> [] then x else whole_part i @ x)"
proof -
  have ix: "list_all is_digit (i @ x)" using assms by simp
  note d = digits_of_nat_of_digits [OF ix]
  show ?thesis
  proof (cases "strip_leading_zeros i = []")
    case False
    then show ?thesis
      using d by (simp add: strip_leading_append whole_part_def)
  next
    case True
    note i0 = this
    show ?thesis
    proof (cases "strip_leading_zeros x = []")
      case False
      then have "x \<noteq> []" by (auto simp: strip_leading_zeros_def)
      then show ?thesis
        using d i0 False pad_strip_leading [of x] by (simp add: strip_leading_append)
    next
      case True
      show ?thesis
      proof (cases "x = []")
        case True
        then show ?thesis using d i0 by (simp add: whole_part_def strip_leading_zeros_def)
      next
        case False
        then obtain k where k: "length x = Suc k" by (cases x) auto
        have "x = replicate (Suc k) CHR ''0''"
          using all_zero_replicate [OF True] k by simp
        then have "replicate k CHR ''0'' @ ''0'' = x"
          by (simp add: replicate_append_same)
        then show ?thesis
          using d i0 True False k by (simp add: strip_leading_append)
      qed
    qed
  qed
qed

lemma formatUnits_display:
  assumes "replicate (d - length (digits_of_nat n)) CHR ''0'' @ digits_of_nat n = w @ x"
      and "length x = d"
  shows "formatUnits (int n) d = (if w = [] then ''0'' else w) @ fraction_part x"
proof -
  have "formatUnits (int n) d =
          (let display = replicate (d - length (digits_of_nat n)) CHR ''0'' @ digits_of_nat n;
               integer = take (length display - d) display;
               fraction = strip_trailing_zeros (drop (length display - d) display)
           in (if integer = [] then ''0'' else integer)
              @ (if fraction = [] then [] else CHR ''.'' # fraction))"
    by (simp add: formatUnits_def Let_def)
  also have "\<dots> = (if w = [] then ''0'' else w) @ fraction_part x"
    unfolding assms(1) using assms(2) by (simp add: Let_def fraction_part_def)
  finally show ?thesis .
qed

lemma formatUnits_digits:
  assumes "list_all is_digit i" and "list_all is_digit x" and "length x = d"
  shows "formatUnits (int (nat_of_digits (i @ x))) d = whole_part i @ fraction_part x"
proof -
  note disp = display_digits [OF assms(1,2), unfolded assms(3)]
  show ?thesis
  proof (cases "strip_leading_zeros i = [] \<and> x \<noteq> []")
    case True
    then have "replicate (d - length (digits_of_nat (nat_of_digits (i @ x)))) CHR ''0''
                 @ digits_of_nat (nat_of_digits (i @ x)) = [] @ x"
      unfolding disp by auto
    from formatUnits_display [OF this assms(3)] True show ?thesis
      by (simp add: whole_part_def)
  next
    case False
    then have "replicate (d - length (digits_of_nat (nat_of_digits (i @ x)))) CHR ''0''
                 @ digits_of_nat (nat_of_digits (i @ x)) = whole_part i @ x"
      unfolding disp by auto
    from formatUnits_display [OF this assms(3)] show ?thesis
      by (simp add: whole_part_def)
  qed
qed

lemma valid_plain: "list_all is_digit i \<Longrightarrow> valid_decimal i"
proof -
  assume a: "list_all is_digit i"
  then have dw: "dropWhile is_digit i = []" by (simp add: list_all_iff)
  have same: "(case i of [] \<Rightarrow> [] | c # cs \<Rightarrow> if c = CHR ''-'' then cs else i) = i"
    using a by (cases i) (auto dest: digit_not_minus)
  show ?thesis unfolding valid_decimal_def Let_def same dw by simp
qed

lemma valid_dotted:
  assumes "list_all is_digit i" and "list_all is_digit f"
  shows "valid_decimal (i @ CHR ''.'' # f)"
proof -
  have "(case i @ CHR ''.'' # f of [] \<Rightarrow> [] | c # cs \<Rightarrow> if c = CHR ''-'' then cs
           else i @ CHR ''.'' # f) = i @ CHR ''.'' # f"
    using assms(1) by (cases i) (auto dest: digit_not_minus)
  moreover have "dropWhile is_digit (i @ CHR ''.'' # f) = CHR ''.'' # f"
    using assms(1) by (simp add: dropWhile_append2 list_all_iff is_digit_def)
  ultimately show ?thesis using assms(2) by (simp add: valid_decimal_def Let_def)
qed

lemma split_dot_plain: "list_all is_digit i \<Longrightarrow> split_dot i = (i, None)"
proof -
  assume "list_all is_digit i"
  then have "\<forall>c \<in> set i. c \<noteq> CHR ''.''"
    by (auto simp: list_all_iff dest: digit_not_dot)
  then have tw: "takeWhile (\<lambda>c. c \<noteq> CHR ''.'') i = i"
    and dw: "dropWhile (\<lambda>c. c \<noteq> CHR ''.'') i = []"
    by simp_all
  show ?thesis unfolding split_dot_def tw dw by simp
qed

lemma split_dot_dotted: "list_all is_digit i \<Longrightarrow> split_dot (i @ CHR ''.'' # f) = (i, Some f)"
proof -
  assume "list_all is_digit i"
  then have "\<forall>c \<in> set i. c \<noteq> CHR ''.''"
    by (auto simp: list_all_iff dest: digit_not_dot)
  then show ?thesis by (simp add: split_dot_def takeWhile_append2 dropWhile_append2)
qed

lemma not_negative: "list_all is_digit i \<Longrightarrow> (case i of [] \<Rightarrow> False | c # cs \<Rightarrow> c = CHR ''-'') = False"
  by (cases i) (auto dest: digit_not_minus)

lemma parseUnits_plain:
  assumes "list_all is_digit i"
  shows "parseUnits i d = Inr (int (nat_of_digits (i @ replicate d CHR ''0'')))"
  using assms
  by (simp add: parseUnits_def valid_plain split_dot_plain not_negative Let_def
      strip_trailing_zeros_def)

lemma parseUnits_dotted:
  assumes "list_all is_digit i" and "list_all is_digit f"
      and "length (strip_trailing_zeros f) \<le> d"
  shows "parseUnits (i @ CHR ''.'' # f) d =
           Inr (int (nat_of_digits (i @ strip_trailing_zeros f
                       @ replicate (d - length (strip_trailing_zeros f)) CHR ''0'')))"
  using assms
  by (simp add: parseUnits_def valid_dotted split_dot_dotted not_negative Let_def)

lemma unsigned_decimal_cases:
  assumes "unsigned_decimal s"
  obtains (plain) "list_all is_digit s"
  | (dotted) i f where "s = i @ CHR ''.'' # f" "list_all is_digit i" "list_all is_digit f"
proof -
  have same: "(case s of [] \<Rightarrow> [] | c # cs \<Rightarrow> if c = CHR ''-'' then cs else s) = s"
    using assms by (cases s) (auto simp: unsigned_decimal_def)
  have v: "list_all is_digit
             (case dropWhile is_digit s of [] \<Rightarrow> []
              | c # cs \<Rightarrow> if c = CHR ''.'' then cs else dropWhile is_digit s)"
    using assms unfolding unsigned_decimal_def valid_decimal_def same Let_def by simp
  show thesis
  proof (cases "dropWhile is_digit s")
    case Nil
    then have "list_all is_digit s"
      by (simp add: list_all_iff)
    then show thesis by (rule plain)
  next
    case (Cons c cs)
    then have split: "s = takeWhile is_digit s @ c # cs" and nd: "\<not> is_digit c"
      by (simp_all add: dropWhile_eq_Cons_conv)
    have i: "list_all is_digit (takeWhile is_digit s)"
      by (auto simp: list_all_iff dest: set_takeWhileD)
    have c: "c = CHR ''.''"
    proof (rule ccontr)
      assume "c \<noteq> CHR ''.''"
      then have "list_all is_digit (c # cs)" using v Cons by simp
      then show False using nd by simp
    qed
    then have "list_all is_digit cs"
      using v Cons by simp
    with i split c show thesis
      by (intro dotted [of "takeWhile is_digit s" cs]) simp_all
  qed
qed

lemma canonical_plain: "list_all is_digit i \<Longrightarrow> canonical_amount i = whole_part i"
  by (simp add: canonical_amount_def split_dot_plain whole_part_def strip_trailing_Nil Let_def)

lemma canonical_dotted:
  "list_all is_digit i \<Longrightarrow> canonical_amount (i @ CHR ''.'' # f) = whole_part i @ fraction_part f"
  by (simp add: canonical_amount_def split_dot_dotted whole_part_def fraction_part_def Let_def)

lemma parseUnits_canonical_form:
  assumes "list_all is_digit i" and "list_all is_digit f"
      and "length (strip_trailing_zeros f) \<le> d"
  shows "parseUnits (whole_part i @ fraction_part f) d =
           Inr (int (nat_of_digits (i @ strip_trailing_zeros f
                       @ replicate (d - length (strip_trailing_zeros f)) CHR ''0'')))"
proof (cases "strip_trailing_zeros f = []")
  case True
  then show ?thesis
    using parseUnits_plain [OF whole_part_digits [OF assms(1)], of d]
    by (simp add: fraction_part_def nat_of_digits_whole)
next
  case False
  have "parseUnits (whole_part i @ CHR ''.'' # strip_trailing_zeros f) d =
          Inr (int (nat_of_digits (whole_part i @ strip_trailing_zeros f
                       @ replicate (d - length (strip_trailing_zeros f)) CHR ''0'')))"
    using parseUnits_dotted [OF whole_part_digits [OF assms(1)]
        strip_trailing_digits [OF assms(2)], of d] assms(3)
    by (simp add: strip_trailing_idem)
  then show ?thesis
    using False by (simp add: fraction_part_def nat_of_digits_whole)
qed

section \<open>Facts about the wallet helpers\<close>

lemma callContract_sent:
  assumes "smartAccount svc = Some account"
      and "encodeFunctionData env (abi params) (functionName params) (args params) = Inr encoded"
  shows "fst (callContract env svc params) =
           [user_operation account
              \<lparr>call_to = contractAddress params, call_value = None, call_data = encoded\<rparr>]"
  using assms
  by (simp add: callContract_def user_operation_def Let_def split: sum.splits)

lemma callContract_refused:
  assumes "smartAccount svc = Some account"
      and "encodeFunctionData env (abi params) (functionName params) (args params) = Inl e"
  shows "callContract env svc params = ([], Some (Inr (failed_operation [] e)))"
  using assms by (simp add: callContract_def)

lemma getTokenBalance_shown:
  assumes "smartAccount svc = Some account"
      and "readBalanceOf env tokenAddress account = Inr b"
      and "readDecimals env tokenAddress = Inr d"
      and "readSymbol env tokenAddress = Inr s"
  shows "getTokenBalance env svc tokenAddress =
           Inr (Some \<lparr>token = tokenAddress, symbol = s, balance = digits_of_nat b,
                      decimals = d, formattedBalance = formatUnits (int b) d\<rparr>)"
  using assms by (simp add: getTokenBalance_def Let_def nat_of_digits_of_nat)

section \<open>The claims\<close>

subsection \<open>C1: at-most-once redemption\<close>

text \<open>
  C1, as stated, fails: a session can be verified twice. \<open>verifyPayment\<close> looks the
  session up before it awaits the facilitator and deletes it only after the answer, so
  two calls for the same id that overlap both find the session; when the facilitator
  answers \<open>verified: true\<close> to both, both return \<open>verified = true\<close>.
\<close>

theorem overlapping_calls_both_verified:
  "verified (fst (verifyPayment_overlapping facilitator_accepts facilitator_accepts
                    example_service ''pay-1'' ''0xaaa'' ''0xaaa''))
   \<and> verified (fst (snd (verifyPayment_overlapping facilitator_accepts facilitator_accepts
                           example_service ''pay-1'' ''0xaaa'' ''0xaaa'')))"
  by (simp add: verifyPayment_overlapping_def verifyPayment_resumed_def x402_defs example_defs)

text \<open>
  C1, amended: once \<open>verifyPayment\<close> has returned \<open>verified = true\<close> for an id, the
  session has been deleted from \<open>pendingPayments\<close> before the settlement request is sent
  (the trace is the verify request, the deletion, the log record, then the effects of
  \<open>settlePayment\<close>), and every call of \<open>verifyPayment\<close> for that id that starts
  afterwards, whatever other verifications, sweeps and issues of other ids came between,
  returns the unverified result (\<open>verified = false\<close>, amount \<open>"0"\<close>) without asking
  the facilitator, as long as the same id is not issued again.
\<close>

theorem verified_session_is_removed_for_later_calls:
  assumes "verifyPayment env svc pid txHash = (v, svc1, fx)"
      and "verified v"
      and "\<forall>op \<in> set ops. \<not> issues pid op"
  shows "\<not> isPaymentPending svc1 pid
         \<and> (\<exists>p. getPendingPayment svc pid = Some p
                \<and> fx = [HttpPost (verifyUrl svc) (verifyBody pid txHash p), MapDelete pid,
                         ConsoleLog ''[X402 PAYMENT VERIFIED]'']
                        @ settlePayment env svc1 pid txHash)
         \<and> verifyPayment env2 (run_ops svc1 ops) pid txHash2 =
             (unverified env2 pid txHash2, run_ops svc1 ops,
              [ConsoleError ''[X402 VERIFICATION ERROR]''])
         \<and> \<not> verified (unverified env2 pid txHash2)"
proof -
  have s1: "svc1 = svc\<lparr>pendingPayments := Map_delete (pendingPayments svc) pid\<rparr>"
    using assms(1,2) by (rule verifyPayment_verified_removes)
  then have gone: "Map_get (pendingPayments svc1) pid = None"
    by (simp add: Map_get_delete)
  then have pending: "\<not> isPaymentPending svc1 pid"
    by (simp add: isPaymentPending_def Map_has_def)
  have trace: "\<exists>p. getPendingPayment svc pid = Some p
                \<and> fx = [HttpPost (verifyUrl svc) (verifyBody pid txHash p), MapDelete pid,
                         ConsoleLog ''[X402 PAYMENT VERIFIED]'']
                        @ settlePayment env svc1 pid txHash"
  proof (cases rule: verifyPayment_cases
      [where svc = svc and pid = pid and env = env and txHash = txHash])
    case not_found
    then show ?thesis
      using assms(1,2) verifyPayment_not_found [of svc pid env txHash]
      by (auto simp: unverified_def)
  next
    case (thrown p e)
    then show ?thesis
      using assms(1,2) verifyPayment_thrown [of svc pid p env txHash e]
      by (auto simp: unverified_def)
  next
    case (rejected p r)
    then show ?thesis
      using assms(1,2) verifyPayment_rejected [of svc pid p env txHash r] by auto
  next
    case (accepted p r)
    then show ?thesis
      using assms(1) verifyPayment_accepted [of svc pid p env txHash r] s1
      by (simp add: getPendingPayment_def)
  qed
  have "Map_get (pendingPayments (run_ops svc1 ops)) pid = None"
    using gone assms(3) by (rule run_ops_keeps_absent)
  then have later: "verifyPayment env2 (run_ops svc1 ops) pid txHash2 =
             (unverified env2 pid txHash2, run_ops svc1 ops,
              [ConsoleError ''[X402 VERIFICATION ERROR]''])"
    by (rule verifyPayment_not_found)
  have "\<not> verified (unverified env2 pid txHash2)"
    by (simp add: unverified_def)
  with pending trace later show ?thesis by blast
qed

theorem verified_session_is_removed_for_later_calls_witness:
  "verified (fst (verifyPayment facilitator_accepts example_service ''pay-1'' ''0xaaa''))
   \<and> list_all (\<lambda>op. \<not> issues ''pay-1'' op) example_ops
   \<and> \<not> isPaymentPending (fst (snd (verifyPayment facilitator_accepts example_service
                                        ''pay-1'' ''0xaaa''))) ''pay-1''
   \<and> \<not> verified (fst (verifyPayment facilitator_accepts
                         (run_ops (fst (snd (verifyPayment facilitator_accepts example_service
                                               ''pay-1'' ''0xaaa''))) example_ops)
                         ''pay-1'' ''0xbbb''))"
proof -
  let ?v = "\<lparr>v_paymentId = ''pay-1'', v_transactionHash = ''0xaaa'', verified = True,
       v_amount = ''1000000'', timestamp = 1700000000\<rparr>"
  note run = example_accepting_run
  have yes: "verified ?v" by simp
  have ops: "\<forall>op \<in> set example_ops. \<not> issues ''pay-1'' op"
    by (simp add: example_ops_def example_issue_def)
  from verified_session_is_removed_for_later_calls
         [OF run yes ops, of facilitator_accepts "''0xbbb''"]
  show ?thesis using ops by (simp add: run list_all_iff)
qed

subsection \<open>C2: waiting for a user operation\<close>

text \<open>
  C2, as stated, fails: \<open>waitForUserOperation\<close> takes no timeout and sets none. It makes
  one call to the provider's \<open>waitForUserOperation\<close>, with the account address and the
  hash only; when that call never settles it never returns, and when the provider
  resolves to an operation that is still pending the result is failed with the reason
  \<open>Transaction failed\<close>, not a timeout.
\<close>

theorem waitForUserOperation_has_no_timeout:
  "waitForUserOperation provider_never_settles example_wallet ''0xop'' = None
   \<and> waitForUserOperation provider_reports_pending example_wallet ''0xop'' =
       Some (failed_operation ''0xop'' (JsError ''Error'' ''Transaction failed''))"
  by (simp add: waitForUserOperation_def wallet_example_defs)

text \<open>
  C2, amended: \<open>waitForUserOperation\<close> returns exactly when the provider's wait
  settles, and adds no bound of its own. When the provider rejects (with a timeout of its
  own, for one) the result is failed and carries that error; when it resolves with status
  \<open>complete\<close> the result is complete with the transaction hash and the receipt; when it
  resolves with any other status the result is failed with \<open>Transaction failed\<close>.
\<close>

theorem waitForUserOperation_follows_provider:
  assumes "smartAccount svc = Some address"
  shows "(waitForUserOperation env svc h = None
            \<longleftrightarrow> evm_waitForUserOperation env address h = None)
         \<and> (\<forall>e. evm_waitForUserOperation env address h = Some (Inl e) \<longrightarrow>
               waitForUserOperation env svc h = Some (failed_operation h e))
         \<and> (\<forall>u. evm_waitForUserOperation env address h = Some (Inr u)
                  \<and> puo_status u = ''complete'' \<longrightarrow>
               waitForUserOperation env svc h =
                 Some \<lparr>userOpHash = h, transactionHash = puo_transactionHash u,
                       uo_status = Complete, receipt = puo_receipt u, uo_error = None\<rparr>)
         \<and> (\<forall>u. evm_waitForUserOperation env address h = Some (Inr u)
                  \<and> puo_status u \<noteq> ''complete'' \<longrightarrow>
               waitForUserOperation env svc h =
                 Some (failed_operation h (JsError ''Error'' ''Transaction failed'')))"
  using assms
  by (auto simp: waitForUserOperation_def split: option.splits sum.splits)

theorem waitForUserOperation_follows_provider_witness:
  "smartAccount example_wallet = Some ''0x1111111111111111111111111111111111111111''
   \<and> waitForUserOperation provider_completes example_wallet ''0xop'' =
       Some \<lparr>userOpHash = ''0xop'', transactionHash = Some ''0xfeed'',
             uo_status = Complete, receipt = Some ''receipt'', uo_error = None\<rparr>
   \<and> waitForUserOperation provider_never_settles example_wallet ''0xop'' = None"
proof -
  have a: "smartAccount example_wallet = Some ''0x1111111111111111111111111111111111111111''"
    by (simp add: example_wallet_def)
  have c: "evm_waitForUserOperation provider_completes
             ''0x1111111111111111111111111111111111111111'' ''0xop'' = Some (Inr completed_operation)"
    by (simp add: provider_completes_def)
  have n: "evm_waitForUserOperation provider_never_settles
             ''0x1111111111111111111111111111111111111111'' ''0xop'' = None"
    by (simp add: provider_never_settles_def provider_completes_def)
  from waitForUserOperation_follows_provider [OF a, of provider_completes "''0xop''"]
       waitForUserOperation_follows_provider [OF a, of provider_never_settles "''0xop''"]
  show ?thesis using a c n by (simp add: completed_operation_def)
qed

subsection \<open>C3: validation in the call helpers\<close>

text \<open>
  C3, as stated, fails: \<open>sendNativeTokens\<close> with a recipient that is no address and a
  negative amount hands the user operation to the provider all the same, and here it
  completes.
\<close>

theorem sendNativeTokens_submits_malformed_input:
  "sendNativeTokens provider_completes example_wallet ''not-an-address'' (- 5) =
     ([user_operation ''0x1111111111111111111111111111111111111111''
         \<lparr>call_to = ''not-an-address'', call_value = Some (- 5), call_data = ''0x''\<rparr>],
      Some (Inr \<lparr>userOpHash = ''0xop'', transactionHash = Some ''0xfeed'',
                 uo_status = Complete, receipt = Some ''receipt'', uo_error = None\<rparr>))"
  by (simp add: sendNativeTokens_def waitForUserOperation_def provider_completes_def
      example_wallet_def completed_operation_def user_operation_def)

text \<open>
  C3, amended: the helpers check neither the address nor the sign of an amount and throw
  no \<open>ValidationError\<close>. With an initialized wallet, \<open>sendNativeTokens\<close> submits one
  user operation with the recipient and the amount as given, for every input.
  \<open>transferTokens\<close>, \<open>approveMilestone\<close> and \<open>createProject\<close> submit one user
  operation to the address as given whenever \<open>parseUnits\<close> and \<open>encodeFunctionData\<close>
  accept the arguments; when one of the two throws, nothing is submitted and the helper
  returns the failed result with an empty hash and that error, except that an error of
  \<open>parseUnits\<close> in \<open>createProject\<close> is thrown to the caller.
\<close>

theorem helpers_submit_without_validation:
  assumes "smartAccount svc = Some account"
  shows "fst (sendNativeTokens env svc to wei) =
           [user_operation account
              \<lparr>call_to = to, call_value = Some wei, call_data = ''0x''\<rparr>]
         \<and> (\<forall>a encoded.
               parseUnits (tp_amount params) (tp_decimals params) = Inr a
               \<and> encodeFunctionData env ERC20_ABI ''transfer''
                    [AbiString (tp_to params), AbiBigInt a] = Inr encoded \<longrightarrow>
               fst (transferTokens env svc params) =
                 [user_operation account
                    \<lparr>call_to = tp_tokenAddress params, call_value = None,
                     call_data = encoded\<rparr>])
         \<and> (\<forall>a e.
               parseUnits (tp_amount params) (tp_decimals params) = Inl e
               \<or> (parseUnits (tp_amount params) (tp_decimals params) = Inr a
                   \<and> encodeFunctionData env ERC20_ABI ''transfer''
                        [AbiString (tp_to params), AbiBigInt a] = Inl e) \<longrightarrow>
               transferTokens env svc params = ([], Some (Inr (failed_operation [] e))))
         \<and> (\<forall>encoded.
               encodeFunctionData env contractAbi ''approveMilestone''
                 [AbiNumber milestoneIndex] = Inr encoded \<longrightarrow>
               fst (approveMilestone env svc target contractAbi milestoneIndex) =
                 [user_operation account
                    \<lparr>call_to = target, call_value = None, call_data = encoded\<rparr>])
         \<and> (\<forall>e.
               encodeFunctionData env contractAbi ''approveMilestone''
                 [AbiNumber milestoneIndex] = Inl e \<longrightarrow>
               approveMilestone env svc target contractAbi milestoneIndex =
                 ([], Some (Inr (failed_operation [] e))))
         \<and> (\<forall>payments encoded.
               parse_payments milestonePayments = Inr payments
               \<and> encodeFunctionData env contractAbi ''createProject''
                    [AbiString client, AbiString freelancer,
                     AbiArray (map AbiString milestoneDescriptions),
                     AbiArray (map AbiBigInt payments)] = Inr encoded \<longrightarrow>
               fst (createProject env svc target contractAbi client freelancer
                      milestoneDescriptions milestonePayments) =
                 [user_operation account
                    \<lparr>call_to = target, call_value = None, call_data = encoded\<rparr>])
         \<and> (\<forall>payments e.
               parse_payments milestonePayments = Inr payments
               \<and> encodeFunctionData env contractAbi ''createProject''
                    [AbiString client, AbiString freelancer,
                     AbiArray (map AbiString milestoneDescriptions),
                     AbiArray (map AbiBigInt payments)] = Inl e \<longrightarrow>
               createProject env svc target contractAbi client freelancer
                 milestoneDescriptions milestonePayments =
                 ([], Some (Inr (failed_operation [] e))))
         \<and> (\<forall>e. parse_payments milestonePayments = Inl e \<longrightarrow>
               createProject env svc target contractAbi client freelancer
                 milestoneDescriptions milestonePayments = ([], Some (Inl e)))"
proof (intro conjI allI impI)
  show "fst (sendNativeTokens env svc to wei) =
           [user_operation account
              \<lparr>call_to = to, call_value = Some wei, call_data = ''0x''\<rparr>]"
    using assms
    by (simp add: sendNativeTokens_def user_operation_def Let_def split: sum.splits)
next
  fix a encoded
  assume "parseUnits (tp_amount params) (tp_decimals params) = Inr a
               \<and> encodeFunctionData env ERC20_ABI ''transfer''
                    [AbiString (tp_to params), AbiBigInt a] = Inr encoded"
  then show "fst (transferTokens env svc params) =
                 [user_operation account
                    \<lparr>call_to = tp_tokenAddress params, call_value = None,
                     call_data = encoded\<rparr>]"
    using assms
    by (simp add: transferTokens_def user_operation_def Let_def split: sum.splits)
next
  fix a e
  assume "parseUnits (tp_amount params) (tp_decimals params) = Inl e
               \<or> (parseUnits (tp_amount params) (tp_decimals params) = Inr a
                   \<and> encodeFunctionData env ERC20_ABI ''transfer''
                        [AbiString (tp_to params), AbiBigInt a] = Inl e)"
  then show "transferTokens env svc params = ([], Some (Inr (failed_operation [] e)))"
    using assms by (auto simp: transferTokens_def)
next
  fix encoded
  assume "encodeFunctionData env contractAbi ''approveMilestone''
                 [AbiNumber milestoneIndex] = Inr encoded"
  then show "fst (approveMilestone env svc target contractAbi milestoneIndex) =
                 [user_operation account
                    \<lparr>call_to = target, call_value = None, call_data = encoded\<rparr>]"
    unfolding approveMilestone_def
    by (subst callContract_sent [OF assms, where encoded = encoded]) simp_all
next
  fix e
  assume "encodeFunctionData env contractAbi ''approveMilestone''
                 [AbiNumber milestoneIndex] = Inl e"
  then show "approveMilestone env svc target contractAbi milestoneIndex =
                 ([], Some (Inr (failed_operation [] e)))"
    unfolding approveMilestone_def
    by (subst callContract_refused [OF assms, where e = e]) simp_all
next
  fix payments encoded
  assume "parse_payments milestonePayments = Inr payments
               \<and> encodeFunctionData env contractAbi ''createProject''
                    [AbiString client, AbiString freelancer,
                     AbiArray (map AbiString milestoneDescriptions),
                     AbiArray (map AbiBigInt payments)] = Inr encoded"
  then show "fst (createProject env svc target contractAbi client freelancer
                      milestoneDescriptions milestonePayments) =
                 [user_operation account
                    \<lparr>call_to = target, call_value = None, call_data = encoded\<rparr>]"
    unfolding createProject_def
    by (simp add: callContract_sent [OF assms, where encoded = encoded])
next
  fix payments e
  assume "parse_payments milestonePayments = Inr payments
               \<and> encodeFunctionData env contractAbi ''createProject''
                    [AbiString client, AbiString freelancer,
                     AbiArray (map AbiString milestoneDescriptions),
                     AbiArray (map AbiBigInt payments)] = Inl e"
  then show "createProject env svc target contractAbi client freelancer
                 milestoneDescriptions milestonePayments =
                 ([], Some (Inr (failed_operation [] e)))"
    unfolding createProject_def
    by (simp add: callContract_refused [OF assms, where e = e])
next
  fix e
  assume "parse_payments milestonePayments = Inl e"
  then show "createProject env svc target contractAbi client freelancer
                 milestoneDescriptions milestonePayments = ([], Some (Inl e))"
    by (simp add: createProject_def)
qed

theorem helpers_submit_without_validation_witness:
  "smartAccount example_wallet = Some ''0x1111111111111111111111111111111111111111''
   \<and> fst (sendNativeTokens provider_completes example_wallet ''not-an-address'' 0) =
       [user_operation ''0x1111111111111111111111111111111111111111''
          \<lparr>call_to = ''not-an-address'', call_value = Some 0, call_data = ''0x''\<rparr>]
   \<and> fst (approveMilestone provider_completes example_wallet ''not-an-address'' [] (- 1)) =
       [user_operation ''0x1111111111111111111111111111111111111111''
          \<lparr>call_to = ''not-an-address'', call_value = None, call_data = ''0xa9059cbb''\<rparr>]"
proof -
  have a: "smartAccount example_wallet = Some ''0x1111111111111111111111111111111111111111''"
    by (simp add: example_wallet_def)
  have e: "encodeFunctionData provider_completes [] ''approveMilestone'' [AbiNumber (- 1)]
             = Inr ''0xa9059cbb''"
    by (simp add: provider_completes_def)
  from helpers_submit_without_validation
         [OF a, of provider_completes "''not-an-address''" 0 _ "[]" "- 1" "''not-an-address''"]
  show ?thesis using a e by simp
qed

subsection \<open>C4: settlement is best effort\<close>

text \<open>
  C4: when the session is stored and the facilitator answers \<open>verified: true\<close>,
  \<open>verifyPayment\<close> returns \<open>verified = true\<close> and the session is deleted, whatever
  happens to the settlement request. A rejected request and a response that is not OK are
  logged as the last effect; the result and the service after the call do not depend on
  the answer to \<open>/settle\<close> (they are the same for every environment that agrees on the
  answer to \<open>/verify\<close> and on the clock).
\<close>

theorem settlement_outcome_never_changes_verification:
  assumes "getPendingPayment svc pid = Some p"
      and "fetch env (verifyUrl svc) (verifyBody pid txHash p) = FetchResolved response"
      and "ok response" and "json response = JsonObject r" and "r_verified r = Some True"
      and "verifyPayment env svc pid txHash = (v, svc', fx)"
  shows "v = \<lparr>v_paymentId = pid, v_transactionHash = txHash, verified = True,
              v_amount = or_string (r_amount r) (amount p),
              timestamp = dateNow env div 1000\<rparr>
         \<and> svc' = svc\<lparr>pendingPayments := Map_delete (pendingPayments svc) pid\<rparr>
         \<and> \<not> isPaymentPending svc' pid
         \<and> (\<forall>e. fetch env (settleUrl svc) (settleBody pid txHash) = FetchRejected e \<longrightarrow>
               last fx = ConsoleError ''[X402 SETTLEMENT ERROR]'')
         \<and> (\<forall>answer. fetch env (settleUrl svc) (settleBody pid txHash) = FetchResolved answer
               \<and> \<not> ok answer \<longrightarrow>
               last fx = ConsoleError ''[X402 SETTLEMENT FAILED]'')
         \<and> (\<forall>env2 :: VerifyEnv. fetch env2 (verifyUrl svc) (verifyBody pid txHash p)
                      = fetch env (verifyUrl svc) (verifyBody pid txHash p)
                    \<and> dateNow env2 = dateNow env \<longrightarrow>
               fst (verifyPayment env2 svc pid txHash) = v
               \<and> fst (snd (verifyPayment env2 svc pid txHash)) = svc')"
proof -
  have got: "Map_get (pendingPayments svc) pid = Some p"
    using assms(1) by (simp add: getPendingPayment_def)
  have resp: "verifyPayment_response (fetch env (verifyUrl svc) (verifyBody pid txHash p)) = Inr r"
    using assms(2-4) by (simp add: verifyPayment_response_def)
  have yes: "or_false (r_verified r)"
    using assms(5) by (simp add: or_false_def)
  note run = verifyPayment_accepted [OF got resp yes]
  have v: "v = \<lparr>v_paymentId = pid, v_transactionHash = txHash, verified = True,
              v_amount = or_string (r_amount r) (amount p),
              timestamp = dateNow env div 1000\<rparr>"
    and s: "svc' = svc\<lparr>pendingPayments := Map_delete (pendingPayments svc) pid\<rparr>"
    and f: "fx = [HttpPost (verifyUrl svc) (verifyBody pid txHash p), MapDelete pid,
             ConsoleLog ''[X402 PAYMENT VERIFIED]'']
            @ settlePayment env svc' pid txHash"
    using run assms(6) by simp_all
  have gone: "\<not> isPaymentPending svc' pid"
    by (simp add: s isPaymentPending_def Map_has_def Map_get_delete)
  have url: "settleUrl svc' = settleUrl svc"
    by (simp add: s settleUrl_def)
  have rej: "\<forall>e. fetch env (settleUrl svc) (settleBody pid txHash) = FetchRejected e \<longrightarrow>
               last fx = ConsoleError ''[X402 SETTLEMENT ERROR]''"
    by (simp add: f settlePayment_def url)
  have bad: "\<forall>answer. fetch env (settleUrl svc) (settleBody pid txHash) = FetchResolved answer
               \<and> \<not> ok answer \<longrightarrow> last fx = ConsoleError ''[X402 SETTLEMENT FAILED]''"
    by (simp add: f settlePayment_def url)
  have indep: "\<forall>env2 :: VerifyEnv. fetch env2 (verifyUrl svc) (verifyBody pid txHash p)
                      = fetch env (verifyUrl svc) (verifyBody pid txHash p)
                    \<and> dateNow env2 = dateNow env \<longrightarrow>
               fst (verifyPayment env2 svc pid txHash) = v
               \<and> fst (snd (verifyPayment env2 svc pid txHash)) = svc'"
  proof (intro allI impI)
    fix env2 :: VerifyEnv
    assume same: "fetch env2 (verifyUrl svc) (verifyBody pid txHash p)
                      = fetch env (verifyUrl svc) (verifyBody pid txHash p)
                    \<and> dateNow env2 = dateNow env"
    then have "verifyPayment_response (fetch env2 (verifyUrl svc) (verifyBody pid txHash p)) = Inr r"
      using resp by simp
    from verifyPayment_accepted [OF got this yes] same
    show "fst (verifyPayment env2 svc pid txHash) = v
               \<and> fst (snd (verifyPayment env2 svc pid txHash)) = svc'"
      by (simp add: v s)
  qed
  from v s gone rej bad indep show ?thesis by blast
qed

theorem settlement_outcome_never_changes_verification_witness:
  "getPendingPayment example_service ''pay-1'' = Some example_payment
   \<and> verified (fst (verifyPayment facilitator_settle_down example_service ''pay-1'' ''0xaaa''))
   \<and> \<not> isPaymentPending
         (fst (snd (verifyPayment facilitator_settle_down example_service ''pay-1'' ''0xaaa'')))
         ''pay-1''
   \<and> last (snd (snd (verifyPayment facilitator_settle_down example_service ''pay-1'' ''0xaaa'')))
       = ConsoleError ''[X402 SETTLEMENT ERROR]''"
proof -
  obtain v svc' fx where
    run: "verifyPayment facilitator_settle_down example_service ''pay-1'' ''0xaaa'' = (v, svc', fx)"
    by (cases "verifyPayment facilitator_settle_down example_service ''pay-1'' ''0xaaa''")
  have g: "getPendingPayment example_service ''pay-1'' = Some example_payment"
    by (simp add: getPendingPayment_def Map_get_def example_service_def)
  have f: "fetch facilitator_settle_down (verifyUrl example_service)
             (verifyBody ''pay-1'' ''0xaaa'' example_payment) = FetchResolved accepting_response"
    by (simp add: facilitator_settle_down_def verifyUrl_def example_service_def)
  have o: "ok accepting_response"
    and j: "json accepting_response =
              JsonObject \<lparr>r_verified = Some True, r_amount = None, r_reason = None\<rparr>"
    by (simp_all add: accepting_response_def)
  have y: "r_verified \<lparr>r_verified = Some True, r_amount = None, r_reason = None\<rparr> = Some True"
    by simp
  have s: "fetch facilitator_settle_down (settleUrl example_service) (settleBody ''pay-1'' ''0xaaa'')
             = FetchRejected (JsError ''TypeError'' ''fetch failed'')"
    by (simp add: facilitator_settle_down_def settleUrl_def example_service_def)
  from settlement_outcome_never_changes_verification [OF g f o j y run] s
  show ?thesis using g run by auto
qed

subsection \<open>C5: verifyPayment never throws\<close>




subsection \<open>C6: a failed verification changes nothing\<close>

text \<open>
  C6: for a stored session the result is verified exactly when the facilitator's answer
  is an OK response whose JSON object has \<open>verified: true\<close>. In every other case (the
  facilitator reports \<open>verified: false\<close>, the response is not OK, the request fails) the
  service after the call is the service before it: the session is still pending and the
  stored challenge is the same.
\<close>

theorem failed_verification_keeps_session:
  assumes "getPendingPayment svc pid = Some p"
      and "verifyPayment env svc pid txHash = (v, svc', fx)"
  shows "(verified v \<longleftrightarrow>
            (\<exists>r. verifyPayment_response (fetch env (verifyUrl svc) (verifyBody pid txHash p)) = Inr r
                 \<and> r_verified r = Some True))
         \<and> (\<not> verified v \<longrightarrow>
               svc' = svc \<and> isPaymentPending svc' pid \<and> getPendingPayment svc' pid = Some p)"
proof -
  have g: "Map_get (pendingPayments svc) pid = Some p"
    using assms(1) by (simp add: getPendingPayment_def)
  have iff: "verified v \<longleftrightarrow>
            (\<exists>r. verifyPayment_response (fetch env (verifyUrl svc) (verifyBody pid txHash p)) = Inr r
                 \<and> r_verified r = Some True)"
  proof (cases "verifyPayment_response (fetch env (verifyUrl svc) (verifyBody pid txHash p))")
    case (Inl e)
    from verifyPayment_thrown [OF g Inl] assms(2) Inl show ?thesis
      by (auto simp: unverified_def)
  next
    case (Inr r)
    show ?thesis
    proof (cases "or_false (r_verified r)")
      case True
      from verifyPayment_accepted [OF g Inr True] assms(2) Inr True show ?thesis
        by (auto simp: or_false_def split: option.splits)
    next
      case False
      from verifyPayment_rejected [OF g Inr False] assms(2) Inr False show ?thesis
        by (auto simp: or_false_def split: option.splits)
    qed
  qed
  have keep: "\<not> verified v \<longrightarrow>
               svc' = svc \<and> isPaymentPending svc' pid \<and> getPendingPayment svc' pid = Some p"
  proof
    assume nv: "\<not> verified v"
    have "svc' = svc"
      using assms(2) nv by (rule verifyPayment_unverified_keeps_service)
    then show "svc' = svc \<and> isPaymentPending svc' pid \<and> getPendingPayment svc' pid = Some p"
      using assms(1) by (simp add: isPaymentPending_def getPendingPayment_def Map_has_def)
  qed
  from iff keep show ?thesis by blast
qed

theorem failed_verification_keeps_session_witness:
  "getPendingPayment example_service ''pay-1'' = Some example_payment
   \<and> \<not> verified (fst (verifyPayment facilitator_rejects example_service ''pay-1'' ''0xbad''))
   \<and> fst (snd (verifyPayment facilitator_rejects example_service ''pay-1'' ''0xbad''))
       = example_service
   \<and> isPaymentPending
        (fst (snd (verifyPayment facilitator_rejects example_service ''pay-1'' ''0xbad'')))
        ''pay-1''"
proof -
  obtain v svc' fx where
    run: "verifyPayment facilitator_rejects example_service ''pay-1'' ''0xbad'' = (v, svc', fx)"
    by (cases "verifyPayment facilitator_rejects example_service ''pay-1'' ''0xbad''")
  have g: "getPendingPayment example_service ''pay-1'' = Some example_payment"
    by (simp add: getPendingPayment_def Map_get_def example_service_def)
  have r: "verifyPayment_response
             (fetch facilitator_rejects (verifyUrl example_service)
                (verifyBody ''pay-1'' ''0xbad'' example_payment))
           = Inr \<lparr>r_verified = Some False, r_amount = None, r_reason = Some ''amount mismatch''\<rparr>"
    by (simp add: verifyPayment_response_def facilitator_rejects_def rejecting_response_def)
  from failed_verification_keeps_session [OF g run] r
  have nv: "\<not> verified v" by simp
  with failed_verification_keeps_session [OF g run]
  show ?thesis using g run by auto
qed

subsection \<open>C7: the expiry sweep\<close>

text \<open>
  C7: \<open>cleanupExpiredPayments\<close> leaves exactly the entries whose deadline is not below the
  clock reading in seconds, in their order, and changes nothing else; a second sweep with
  the same clock reading changes nothing and logs nothing.
\<close>

theorem cleanupExpiredPayments_exact_idempotent:
  assumes "Map_ok (pendingPayments svc)"
  shows "fst (cleanupExpiredPayments nowMs svc) =
           svc\<lparr>pendingPayments :=
                 filter (\<lambda>(pid, payment). \<not> deadline payment < nowMs div 1000)
                   (pendingPayments svc)\<rparr>
         \<and> cleanupExpiredPayments nowMs (fst (cleanupExpiredPayments nowMs svc)) =
             (fst (cleanupExpiredPayments nowMs svc), [])"
proof -
  let ?now = "nowMs div 1000"
  let ?kept = "filter (\<lambda>(pid, payment). \<not> deadline payment < ?now) (pendingPayments svc)"
  obtain m fx where loop: "cleanup_loop ?now (pendingPayments svc) (pendingPayments svc, []) = (m, fx)"
    by (cases "cleanup_loop ?now (pendingPayments svc) (pendingPayments svc, [])")
  have "m = ?kept"
    using cleanup_loop_self [OF assms, of ?now "[]"] loop by simp
  then have first: "fst (cleanupExpiredPayments nowMs svc) = svc\<lparr>pendingPayments := ?kept\<rparr>"
    using loop by (simp add: cleanupExpiredPayments_def)
  have "\<forall>e \<in> set ?kept. \<not> deadline (snd e) < ?now"
    by auto
  then have "cleanup_loop ?now ?kept (?kept, []) = (?kept, [])"
    by (rule cleanup_loop_no_expired)
  then have "cleanupExpiredPayments nowMs (svc\<lparr>pendingPayments := ?kept\<rparr>) =
               (svc\<lparr>pendingPayments := ?kept\<rparr>, [])"
    by (simp add: cleanupExpiredPayments_def)
  with first show ?thesis by simp
qed

theorem cleanupExpiredPayments_exact_idempotent_witness:
  "Map_ok (pendingPayments example_two_sessions)
   \<and> fst (cleanupExpiredPayments 1700005000000 example_two_sessions) =
       example_two_sessions\<lparr>pendingPayments := [(''pay-3'', late_payment)]\<rparr>
   \<and> cleanupExpiredPayments 1700005000000
        (fst (cleanupExpiredPayments 1700005000000 example_two_sessions)) =
       (fst (cleanupExpiredPayments 1700005000000 example_two_sessions), [])"
proof -
  have m: "Map_ok (pendingPayments example_two_sessions)"
    by (simp add: Map_ok_def example_two_sessions_def example_service_def)
  have k: "filter (\<lambda>(pid, payment). \<not> deadline payment < 1700005000000 div 1000)
             (pendingPayments example_two_sessions) = [(''pay-3'', late_payment)]"
    by (simp add: example_two_sessions_def example_service_def example_payment_def
        late_payment_def)
  note t = cleanupExpiredPayments_exact_idempotent [OF m, of 1700005000000]
  from t have a: "fst (cleanupExpiredPayments 1700005000000 example_two_sessions) =
       example_two_sessions\<lparr>pendingPayments := [(''pay-3'', late_payment)]\<rparr>"
    using k by simp
  from t have b: "cleanupExpiredPayments 1700005000000
        (fst (cleanupExpiredPayments 1700005000000 example_two_sessions)) =
       (fst (cleanupExpiredPayments 1700005000000 example_two_sessions), [])"
    by (rule conjunct2)
  show ?thesis by (intro conjI) (rule m, rule a, rule b)
qed

subsection \<open>C8: issuing a challenge\<close>

text \<open>
  C8, as stated, fails: the code takes the id from \<open>uuidv4()\<close> and stores the challenge
  with \<open>Map.set\<close> without looking whether the id is a key already. When the generator
  returns the id of a stored challenge, the id returned is not fresh, the stored challenge
  is overwritten and the map does not grow.
\<close>

theorem create402Response_collision_overwrites:
  "isPaymentPending example_service (uuidv4 colliding_issue)
   \<and> getPendingPayment example_service (uuidv4 colliding_issue) = Some example_payment
   \<and> pendingPayments (fst (snd (create402Response colliding_issue example_service DISPUTE_BOND))) =
       [(''pay-1'',
         \<lparr>paymentId = ''pay-1'', amount = ''10000000'', currency = ''USDC'',
          recipient = ''0x742d35Cc6635C0532925a3b8D716C4C3e4d4Cc62'',
          deadline = 1700004100, nonce = ''77d0''\<rparr>)]
   \<and> length (pendingPayments
               (fst (snd (create402Response colliding_issue example_service DISPUTE_BOND))))
       = length (pendingPayments example_service)"
  by (simp add: create402Response_def generatePaymentRequest_def Let_def colliding_issue_def
      example_service_def example_payment_def isPaymentPending_def getPendingPayment_def
      Map_has_def Map_get_def Map_set_def)

text \<open>
  C8, amended: for each of the four scenarios, \<open>create402Response\<close> returns the
  challenge with the id that \<open>uuidv4()\<close> gave, the scenario's price and the deadline
  \<open>floor(now / 1000) + 3600\<close>, stores it under that id and leaves every other key as it
  was; the envelope has status 402 and carries the payment data in the headers and in the
  body. The code does not check that the id is fresh. When it is not a key of
  \<open>pendingPayments\<close> before the call, the map grows by exactly the entry of the
  challenge, at the end; when it is, the entry under it is replaced and the map keeps its
  length.
\<close>

theorem create402Response_postcondition:
  "case create402Response env svc scenario of
     (res, svc', fx) \<Rightarrow>
       (let config = X402_PAYMENT_SCENARIOS scenario;
            challenge =
              \<lparr>paymentId = uuidv4 env, amount = c_amount config,
               currency = c_currency config, recipient = recipientAddress svc,
               deadline = issueNow env div 1000 + 3600, nonce = randomBytesHex env\<rparr>
        in fst (generatePaymentRequest env svc scenario) = challenge
           \<and> svc' = svc\<lparr>pendingPayments :=
                            Map_set (pendingPayments svc) (uuidv4 env) challenge\<rparr>
           \<and> getPendingPayment svc' (uuidv4 env) = Some challenge
           \<and> (\<forall>k. k \<noteq> uuidv4 env \<longrightarrow> getPendingPayment svc' k = getPendingPayment svc k)
           \<and> (\<not> isPaymentPending svc (uuidv4 env) \<longrightarrow>
                 pendingPayments svc' = pendingPayments svc @ [(uuidv4 env, challenge)]
                 \<and> length (pendingPayments svc') = length (pendingPayments svc) + 1)
           \<and> (isPaymentPending svc (uuidv4 env) \<longrightarrow>
                 length (pendingPayments svc') = length (pendingPayments svc))
           \<and> res_status res = 402
           \<and> res_headers res =
               [(''Content-Type'', ''application/json''),
                (''X-Payment-Required'', ''x402''),
                (''X-Payment-Amount'', c_amount config),
                (''X-Payment-Currency'', c_currency config),
                (''X-Payment-Recipient'', recipientAddress svc),
                (''X-Payment-Id'', uuidv4 env)]
           \<and> res_body res =
               \<lparr>b_error = ''Payment Required'', b_code = 402,
                b_message = c_description config,
                b_payment =
                  \<lparr>p_id = uuidv4 env, p_amount = c_amount config,
                   p_currency = c_currency config, p_recipient = recipientAddress svc,
                   p_deadline = issueNow env div 1000 + 3600,
                   p_description = c_description config,
                   p_facilitator = facilitatorUrl svc\<rparr>\<rparr>)"
proof -
  let ?config = "X402_PAYMENT_SCENARIOS scenario"
  let ?challenge = "\<lparr>paymentId = uuidv4 env, amount = c_amount ?config,
               currency = c_currency ?config, recipient = recipientAddress svc,
               deadline = issueNow env div 1000 + 3600, nonce = randomBytesHex env\<rparr>"
  have fresh: "\<not> isPaymentPending svc (uuidv4 env) \<longrightarrow>
                 Map_set (pendingPayments svc) (uuidv4 env) ?challenge
                   = pendingPayments svc @ [(uuidv4 env, ?challenge)]"
    by (auto simp: isPaymentPending_def Map_has_def Map_set_fresh split: option.splits)
  have taken: "isPaymentPending svc (uuidv4 env) \<longrightarrow>
                 length (Map_set (pendingPayments svc) (uuidv4 env) ?challenge)
                   = length (pendingPayments svc)"
    by (auto simp: isPaymentPending_def Map_has_def Map_set_present split: option.splits)
  show ?thesis
    using fresh taken
    by (simp add: create402Response_def generatePaymentRequest_def Let_def getPendingPayment_def
        Map_get_set)
qed

theorem create402Response_postcondition_witness:
  "\<not> isPaymentPending example_service (uuidv4 example_issue)
   \<and> res_status (fst (create402Response example_issue example_service DISPUTE_BOND)) = 402
   \<and> pendingPayments (fst (snd (create402Response example_issue example_service DISPUTE_BOND))) =
       [(''pay-1'', example_payment),
        (''pay-2'',
         \<lparr>paymentId = ''pay-2'', amount = ''10000000'', currency = ''USDC'',
          recipient = ''0x742d35Cc6635C0532925a3b8D716C4C3e4d4Cc62'',
          deadline = 1700003600, nonce = ''9c41''\<rparr>)]"
proof -
  have f: "\<not> isPaymentPending example_service (uuidv4 example_issue)"
    by (simp add: isPaymentPending_def Map_has_def Map_get_def example_service_def
        example_issue_def)
  obtain res svc' fx where
    run: "create402Response example_issue example_service DISPUTE_BOND = (res, svc', fx)"
    by (cases "create402Response example_issue example_service DISPUTE_BOND")
  from create402Response_postcondition
         [where env = example_issue and svc = example_service and scenario = DISPUTE_BOND]
       run f
  have "res_status res = 402"
    and "pendingPayments svc' =
           pendingPayments example_service
           @ [(uuidv4 example_issue,
               \<lparr>paymentId = uuidv4 example_issue,
                amount = c_amount (X402_PAYMENT_SCENARIOS DISPUTE_BOND),
                currency = c_currency (X402_PAYMENT_SCENARIOS DISPUTE_BOND),
                recipient = recipientAddress example_service,
                deadline = issueNow example_issue div 1000 + 3600,
                nonce = randomBytesHex example_issue\<rparr>)]"
    by (auto simp: Let_def)
  then show ?thesis
    using f run by (simp add: example_service_def example_issue_def)
qed

subsection \<open>C9: decimal round trip\<close>

text \<open>
  C9, as stated, fails: \<open>"10.50"\<close> is a decimal amount with two digits after the point;
  at 6 decimals it is the raw amount \<open>10500000\<close>, which is shown as \<open>"10.5"\<close>, not as
  the string that was entered.
\<close>

theorem units_round_trip_fails_on_trailing_zero:
  "unsigned_decimal ''10.50'' \<and> fraction_digits ''10.50'' \<le> 6
   \<and> parseUnits ''10.50'' 6 = Inr 10500000
   \<and> formatUnits 10500000 6 = ''10.5''
   \<and> formatUnits 10500000 6 \<noteq> ''10.50''"
  by (simp add: digits_of_nat.simps units_defs replicate_numeral)

text \<open>
  C9, amended: for every decimal amount without a sign that has at most \<open>d\<close> digits
  after the point, \<open>parseUnits\<close> at precision \<open>d\<close> succeeds, and \<open>formatUnits\<close> of the
  raw amount at the same precision is the canonical way to write the amount entered. So
  the string comes back unchanged exactly when it was canonical (as \<open>"10.5"\<close> is), the
  string that comes back parses to the same raw amount, and it is what
  \<open>getTokenBalance\<close> shows as \<open>formattedBalance\<close> for a balance of that raw amount.
\<close>

theorem units_round_trip_canonical:
  assumes "unsigned_decimal s" and "fraction_digits s \<le> d"
  shows "\<exists>n. parseUnits s d = Inr (int n)
             \<and> formatUnits (int n) d = canonical_amount s
             \<and> (canonical_amount s = s \<longrightarrow> formatUnits (int n) d = s)
             \<and> parseUnits (formatUnits (int n) d) d = Inr (int n)
             \<and> (\<forall>(env :: WalletEnv) (svc :: SmartWalletService) account tokenAddress sym.
                   smartAccount svc = Some account
                   \<and> readBalanceOf env tokenAddress account = Inr n
                   \<and> readDecimals env tokenAddress = Inr d
                   \<and> readSymbol env tokenAddress = Inr sym \<longrightarrow>
                   getTokenBalance env svc tokenAddress =
                     Inr (Some \<lparr>token = tokenAddress, symbol = sym,
                                balance = digits_of_nat n, decimals = d,
                                formattedBalance = canonical_amount s\<rparr>))"
proof -
  have core: "\<exists>n. parseUnits s d = Inr (int n)
             \<and> formatUnits (int n) d = canonical_amount s
             \<and> parseUnits (formatUnits (int n) d) d = Inr (int n)"
    using assms(1)
  proof (cases rule: unsigned_decimal_cases)
    case plain
    let ?n = "nat_of_digits (s @ replicate d CHR ''0'')"
    have p: "parseUnits s d = Inr (int ?n)" using plain by (rule parseUnits_plain)
    have "formatUnits (int ?n) d = whole_part s @ fraction_part (replicate d CHR ''0'')"
      using plain digits_zeros by (intro formatUnits_digits) simp_all
    also have "fraction_part (replicate d CHR ''0'') = []"
      using strip_trailing_zeros_pad [of "[]" d] by (simp add: fraction_part_def strip_trailing_Nil)
    finally have f: "formatUnits (int ?n) d = canonical_amount s"
      using plain by (simp add: canonical_plain)
    have "parseUnits (whole_part s @ fraction_part []) d = Inr (int ?n)"
      using parseUnits_canonical_form [OF plain, of "[]" d] by (simp add: strip_trailing_Nil)
    then have "parseUnits (formatUnits (int ?n) d) d = Inr (int ?n)"
      using f plain by (simp add: canonical_plain fraction_part_def strip_trailing_Nil)
    with p f show ?thesis by blast
  next
    case (dotted i f)
    let ?f = "strip_trailing_zeros f"
    let ?x = "?f @ replicate (d - length ?f) CHR ''0''"
    let ?n = "nat_of_digits (i @ ?x)"
    have "fraction_digits s = length f"
      using dotted by (simp add: fraction_digits_def split_dot_dotted)
    then have len: "length ?f \<le> d"
      using assms(2) length_strip_trailing [of f] by simp
    have p: "parseUnits s d = Inr (int ?n)"
      using dotted len by (simp add: parseUnits_dotted)
    have x: "list_all is_digit ?x"
      using strip_trailing_digits [OF dotted(3)] digits_zeros by simp
    have "formatUnits (int ?n) d = whole_part i @ fraction_part ?x"
      using dotted(2) x len by (intro formatUnits_digits) simp_all
    also have "fraction_part ?x = fraction_part f"
      by (simp add: fraction_part_def strip_trailing_zeros_pad strip_trailing_idem)
    finally have f: "formatUnits (int ?n) d = canonical_amount s"
      using dotted by (simp add: canonical_dotted)
    have "parseUnits (formatUnits (int ?n) d) d = Inr (int ?n)"
      using parseUnits_canonical_form [OF dotted(2,3) len] f dotted by (simp add: canonical_dotted)
    with p f show ?thesis by blast
  qed
  then obtain n where n: "parseUnits s d = Inr (int n)"
      "formatUnits (int n) d = canonical_amount s"
      "parseUnits (formatUnits (int n) d) d = Inr (int n)"
    by blast
  have shown: "\<forall>(env :: WalletEnv) (svc :: SmartWalletService) account tokenAddress sym.
                   smartAccount svc = Some account
                   \<and> readBalanceOf env tokenAddress account = Inr n
                   \<and> readDecimals env tokenAddress = Inr d
                   \<and> readSymbol env tokenAddress = Inr sym \<longrightarrow>
                   getTokenBalance env svc tokenAddress =
                     Inr (Some \<lparr>token = tokenAddress, symbol = sym,
                                balance = digits_of_nat n, decimals = d,
                                formattedBalance = canonical_amount s\<rparr>)"
    using getTokenBalance_shown n(2) by simp
  from n shown show ?thesis by (intro exI [of _ n]) simp
qed

theorem units_round_trip_canonical_witness:
  "unsigned_decimal ''10.5'' \<and> fraction_digits ''10.5'' \<le> 6
   \<and> parseUnits ''10.5'' 6 = Inr 10500000
   \<and> formatUnits 10500000 6 = ''10.5''"
proof -
  have u: "unsigned_decimal ''10.5''" and f: "fraction_digits ''10.5'' \<le> 6"
    by (simp_all add: units_defs)
  have p: "parseUnits ''10.5'' 6 = Inr 10500000"
    by (simp add: units_defs replicate_numeral)
  have c: "canonical_amount ''10.5'' = ''10.5''"
    by (simp add: units_defs)
  from units_round_trip_canonical [OF u f]
  obtain n where "parseUnits ''10.5'' 6 = Inr (int n)"
    and "formatUnits (int n) 6 = canonical_amount ''10.5''" by blast
  then show ?thesis using u f p c by auto
qed

subsection \<open>C10: verifyPayment does not read the deadline\<close>

text \<open>
  C10: setting the deadline of the stored challenge to any other value changes neither
  the result of \<open>verifyPayment\<close> nor its effects, and the service after the call differs
  only in that deadline. In particular a challenge whose deadline has passed and that no
  sweep has removed is verified, deleted and settled when the facilitator answers
  \<open>verified: true\<close>.
\<close>

theorem verifyPayment_ignores_deadline:
  "verifyPayment env (with_deadline svc pid d) pid txHash =
     (case verifyPayment env svc pid txHash of
        (v, svc', fx) \<Rightarrow> (v, with_deadline svc' pid d, fx))
   \<and> (\<forall>p r. getPendingPayment svc pid = Some p
          \<and> deadline p < dateNow env div 1000
          \<and> verifyPayment_response (fetch env (verifyUrl svc) (verifyBody pid txHash p)) = Inr r
          \<and> r_verified r = Some True \<longrightarrow>
        verified (fst (verifyPayment env svc pid txHash))
        \<and> \<not> isPaymentPending (fst (snd (verifyPayment env svc pid txHash))) pid
        \<and> HttpPost (verifyUrl svc) (verifyBody pid txHash p)
             \<in> set (snd (snd (verifyPayment env svc pid txHash)))
        \<and> HttpPost (settleUrl svc) (settleBody pid txHash)
             \<in> set (snd (snd (verifyPayment env svc pid txHash))))"
proof (intro conjI allI impI)
  show "verifyPayment env (with_deadline svc pid d) pid txHash =
     (case verifyPayment env svc pid txHash of
        (v, svc', fx) \<Rightarrow> (v, with_deadline svc' pid d, fx))"
    by (rule verifyPayment_with_deadline)
next
  fix p r
  assume a: "getPendingPayment svc pid = Some p
          \<and> deadline p < dateNow env div 1000
          \<and> verifyPayment_response (fetch env (verifyUrl svc) (verifyBody pid txHash p)) = Inr r
          \<and> r_verified r = Some True"
  then have g: "Map_get (pendingPayments svc) pid = Some p"
    and resp: "verifyPayment_response (fetch env (verifyUrl svc) (verifyBody pid txHash p)) = Inr r"
    and yes: "or_false (r_verified r)"
    by (simp_all add: getPendingPayment_def or_false_def)
  note run = verifyPayment_accepted [OF g resp yes]
  show "verified (fst (verifyPayment env svc pid txHash))"
    by (simp add: run)
  show "\<not> isPaymentPending (fst (snd (verifyPayment env svc pid txHash))) pid"
    by (simp add: run isPaymentPending_def Map_has_def Map_get_delete)
  show "HttpPost (verifyUrl svc) (verifyBody pid txHash p)
             \<in> set (snd (snd (verifyPayment env svc pid txHash)))"
    by (simp add: run)
  show "HttpPost (settleUrl svc) (settleBody pid txHash)
             \<in> set (snd (snd (verifyPayment env svc pid txHash)))"
    by (simp add: run settlePayment_def settleUrl_def)
qed

theorem verifyPayment_ignores_deadline_witness:
  "getPendingPayment example_service ''pay-1'' = Some example_payment
   \<and> deadline example_payment < dateNow facilitator_settle_down div 1000
   \<and> verified (fst (verifyPayment facilitator_settle_down example_service ''pay-1'' ''0xaaa''))
   \<and> HttpPost (settleUrl example_service) (settleBody ''pay-1'' ''0xaaa'')
        \<in> set (snd (snd (verifyPayment facilitator_settle_down example_service
                             ''pay-1'' ''0xaaa'')))"
proof -
  have g: "getPendingPayment example_service ''pay-1'' = Some example_payment"
    by (simp add: getPendingPayment_def Map_get_def example_service_def)
  have late: "deadline example_payment < dateNow facilitator_settle_down div 1000"
    by (simp add: example_payment_def facilitator_settle_down_def)
  have r: "verifyPayment_response
             (fetch facilitator_settle_down (verifyUrl example_service)
                (verifyBody ''pay-1'' ''0xaaa'' example_payment))
           = Inr \<lparr>r_verified = Some True, r_amount = None, r_reason = None\<rparr>"
    by (simp add: verifyPayment_response_def facilitator_settle_down_def verifyUrl_def
        example_service_def accepting_response_def)
  from verifyPayment_ignores_deadline
         [of facilitator_settle_down example_service "''pay-1''" 0 "''0xaaa''"]
  show ?thesis using g late r by simp
qed

end
